theory Spec2Isabelle
  imports Complex_Main "HOL-Library.Word"
begin

section \<open>Data model\<close>

type_synonym int64 = "64 word"
type_synonym int32 = "32 word"

text \<open>
  \<^verbatim>\<open>tir::Var\<close> (include/tvm/tir/var.h): a name hint, and an identity given by the
  address of the node ("a variable is uniquely identified by its address").
\<close>

datatype Var = Var (var_addr: nat) (var_name_hint: string)

text \<open>
  \<^verbatim>\<open>runtime::DataType\<close> wraps the DLPack triple (type code, bits, lanes).
\<close>

datatype DataType = DataType (dt_code: "8 word") (dt_bits: "8 word") (dt_lanes: "16 word")

text \<open>
  A buffer extent is a \<^verbatim>\<open>PrimExpr\<close>: an integer constant, or a symbolic expression
  such as a \<^verbatim>\<open>tir::Var\<close> (which var.h declares as a subclass of \<^verbatim>\<open>PrimExpr\<close>).
\<close>

datatype PrimExpr = IntImm int64 | VarExpr Var

record Buffer =
  buf_dtype :: DataType
  buf_shape :: "PrimExpr list"

text \<open>
  \<^verbatim>\<open>tir::PrimFunc\<close>, restricted to the fields that arg_info.cc reads: the parameters,
  the buffer map (a \<^verbatim>\<open>Map<Var, Buffer>\<close>, read with \<^verbatim>\<open>Get\<close>) and the attribute
  dictionary (integer-valued attributes by key).
\<close>

record PrimFunc =
  params :: "Var list"
  buffer_map :: "(Var \<times> Buffer) list"
  attrs :: "(string \<times> int) list"

text \<open>
  A function of a module is a \<^verbatim>\<open>BaseFunc\<close>; \<^verbatim>\<open>base_func.as<tir::PrimFuncNode>()\<close>
  succeeds on a PrimFunc only. The other kinds (Relax functions, external functions)
  carry an opaque tag here.
\<close>

datatype BaseFunc = PrimFuncNode PrimFunc | OtherFunc nat

fun as_PrimFuncNode :: "BaseFunc \<Rightarrow> PrimFunc option" where
  "as_PrimFuncNode (PrimFuncNode f) = Some f"
| "as_PrimFuncNode (OtherFunc _) = None"

datatype GlobalVar = GlobalVar (name_hint: string)

text \<open>
  \<^verbatim>\<open>mod->functions\<close> is a \<^verbatim>\<open>Map<GlobalVar, BaseFunc>\<close>; the module is modelled by the
  sequence of its entries in the order the range-for loop visits them.
\<close>

type_synonym IRModule = "(GlobalVar \<times> BaseFunc) list"

text \<open>
  \<^verbatim>\<open>ffi::Any\<close> / \<^verbatim>\<open>ObjectRef\<close> values as they occur in serialized descriptors and
  in trace instructions: nothing, an integer, a string, an array, or a handle to a
  block of the schedule.
\<close>

datatype Any = ANone | AInt int64 | AStr string | AArray "Any list" | ABlockRV nat

text \<open>
  Every \<^verbatim>\<open>LOG(FATAL)\<close>, failed \<^verbatim>\<open>CHECK\<close>/\<^verbatim>\<open>ICHECK\<close> and failed cast of the source is
  a value of this type. The fatal messages stream the offending module, payload or
  argument; the constructor carries it.
\<close>

datatype error =
    NoPrimFunc IRModule
  | MultiplePrimFuncs IRModule
  | ParseError Any
  | UnsupportedArgument Var
  | TypeMismatch
  | CheckFailed
  | NullPointer
  | IndexOutOfRange
  | ScheduleError
  | GlobalFunctionMissing string
  | RemovalFailed string

section \<open>arg\_info.cc: FindEntryFunc\<close>

definition kIsEntryFunc :: string where
  "kIsEntryFunc = ''tir.is_entry_func''"

text \<open>
  Modelled from the spec: \<^verbatim>\<open>HasNonzeroAttr\<close> is declared in another file of the
  repository. The spec calls the entry function "the function explicitly flagged as
  entry"; the flag is the integer attribute under the given key, and it counts when
  present and nonzero.
\<close>

definition HasNonzeroAttr :: "PrimFunc \<Rightarrow> string \<Rightarrow> bool" where
  "HasNonzeroAttr func key =
     (case map_of (attrs func) key of None \<Rightarrow> False | Some v \<Rightarrow> v \<noteq> 0)"

text \<open>
  The loop of \<^verbatim>\<open>FindEntryFunc\<close> over \<^verbatim>\<open>mod->functions\<close>. The loop state is
  \<^verbatim>\<open>(num_prim_func, main_func, last_func)\<close>; \<open>Inl func\<close> is the early
  \<^verbatim>\<open>return\<close> from inside the loop, \<open>Inr\<close> the state at loop exit.
\<close>

fun FindEntryFunc_loop ::
  "IRModule \<Rightarrow> nat \<times> PrimFunc option \<times> PrimFunc option
     \<Rightarrow> PrimFunc + nat \<times> PrimFunc option \<times> PrimFunc option" where
  "FindEntryFunc_loop [] st = Inr st"
| "FindEntryFunc_loop ((gv, base_func) # rest) (num_prim_func, main_func, last_func) =
     (case as_PrimFuncNode base_func of
        Some func \<Rightarrow>
          if HasNonzeroAttr func kIsEntryFunc then Inl func
          else FindEntryFunc_loop rest
                 (Suc num_prim_func,
                  if name_hint gv = ''main'' then Some func else main_func,
                  Some func)
      | None \<Rightarrow> FindEntryFunc_loop rest (num_prim_func, main_func, last_func))"

text \<open>
  \<^verbatim>\<open>FindEntryFunc\<close>: the loop, then priority 2 (the PrimFunc named "main"), then
  priority 3 (the only PrimFunc) with its two fatal errors, which stream the module.
\<close>

definition FindEntryFunc :: "IRModule \<Rightarrow> error + PrimFunc" where
  "FindEntryFunc irmod =
     (case FindEntryFunc_loop irmod (0, None, None) of
        Inl func \<Rightarrow> Inr func
      | Inr (num_prim_func, main_func, last_func) \<Rightarrow>
          (case main_func of
             Some func \<Rightarrow> Inr func
           | None \<Rightarrow>
               if num_prim_func = 0 then Inl (NoPrimFunc irmod)
               else if num_prim_func > 1 then Inl (MultiplePrimFuncs irmod)
               else (case last_func of
                       Some func \<Rightarrow> Inr func
                     | None \<Rightarrow> Inl NullPointer)))"

subsection \<open>Vocabulary for FindEntryFunc\<close>

definition is_entry :: "PrimFunc \<Rightarrow> bool" where
  "is_entry func = HasNonzeroAttr func kIsEntryFunc"

text \<open>The PrimFuncs of a module, in iteration order.\<close>

definition prim_funcs :: "IRModule \<Rightarrow> PrimFunc list" where
  "prim_funcs irmod = List.map_filter (\<lambda>(gv, base_func). as_PrimFuncNode base_func) irmod"

text \<open>The PrimFuncs of a module whose global variable is named "main".\<close>

definition main_funcs :: "IRModule \<Rightarrow> PrimFunc list" where
  "main_funcs irmod =
     List.map_filter
       (\<lambda>(gv, base_func). if name_hint gv = ''main'' then as_PrimFuncNode base_func else None)
       irmod"

text \<open>The module that a fatal error of \<^verbatim>\<open>FindEntryFunc\<close> streams into its message.\<close>

fun error_module :: "error \<Rightarrow> IRModule option" where
  "error_module (NoPrimFunc irmod) = Some irmod"
| "error_module (MultiplePrimFuncs irmod) = Some irmod"
| "error_module _ = None"

text \<open>An entry of \<^verbatim>\<open>mod->functions\<close> whose function is a PrimFunc.\<close>

definition is_PrimFunc_entry :: "GlobalVar \<times> BaseFunc \<Rightarrow> bool" where
  "is_PrimFunc_entry kv = (as_PrimFuncNode (snd kv) \<noteq> None)"

section \<open>arg\_info.cc: ArgInfo and TensorInfo\<close>

text \<open>
  \<^verbatim>\<open>ArgInfo\<close> has one variant, \<^verbatim>\<open>TensorInfo\<close>, with the fields \<^verbatim>\<open>dtype\<close> and
  \<^verbatim>\<open>shape\<close> (a \<^verbatim>\<open>ffi::Shape\<close>, a sequence of \<^verbatim>\<open>int64_t\<close>).
\<close>

datatype ArgInfo = TensorInfo (dtype: DataType) (shape: "int64 list")

text \<open>
  \<^verbatim>\<open>ArgInfo::FromPrimFunc\<close>. The helper \<^verbatim>\<open>support::AsVector<PrimExpr, int64_t>\<close>, which
  reads the extents of a buffer as 64-bit integers, is declared in another file of the
  repository; it is the parameter \<open>AsVector\<close>, and it may fail. \<open>result\<close> is the
  array built so far.
\<close>

fun FromPrimFunc_loop ::
  "(PrimExpr list \<Rightarrow> error + int64 list) \<Rightarrow> PrimFunc \<Rightarrow> Var list \<Rightarrow> ArgInfo list
     \<Rightarrow> error + ArgInfo list" where
  "FromPrimFunc_loop AsVector func [] result = Inr result"
| "FromPrimFunc_loop AsVector func (arg # rest) result =
     (case map_of (buffer_map func) arg of
        Some buffer \<Rightarrow>
          (case AsVector (buf_shape buffer) of
             Inl e \<Rightarrow> Inl e
           | Inr s \<Rightarrow>
               FromPrimFunc_loop AsVector func rest
                 (result @ [TensorInfo (buf_dtype buffer) s]))
      | None \<Rightarrow> Inl (UnsupportedArgument arg))"

definition FromPrimFunc ::
  "(PrimExpr list \<Rightarrow> error + int64 list) \<Rightarrow> PrimFunc \<Rightarrow> error + ArgInfo list" where
  "FromPrimFunc AsVector func = FromPrimFunc_loop AsVector func (params func) []"

text \<open>
  \<^verbatim>\<open>ArgInfo::FromEntryFunc\<close>. The pass \<^verbatim>\<open>RemoveWeightLayoutRewriteBlock\<close> is declared
  in another file of the repository and is the parameter of that name.
\<close>

definition FromEntryFunc ::
  "(PrimExpr list \<Rightarrow> error + int64 list) \<Rightarrow> (IRModule \<Rightarrow> IRModule) \<Rightarrow> IRModule \<Rightarrow> bool
     \<Rightarrow> error + ArgInfo list" where
  "FromEntryFunc AsVector RemoveWeightLayoutRewriteBlock irmod remove_preproc =
     (if remove_preproc then
        (let new_mod = RemoveWeightLayoutRewriteBlock irmod in
         case FindEntryFunc new_mod of
           Inl e \<Rightarrow> Inl e
         | Inr func \<Rightarrow> FromPrimFunc AsVector func)
      else
        (case FindEntryFunc irmod of
           Inl e \<Rightarrow> Inl e
         | Inr func \<Rightarrow> FromPrimFunc AsVector func))"

text \<open>
  Modelled from the spec: \<^verbatim>\<open>support::AsArray\<close> and \<^verbatim>\<open>AsIntArray\<close> are declared in
  other files of the repository. The spec gives the serialized shape as an
  "int64-array": \<open>AsArray\<close> writes the shape as the array of its integers, and
  \<open>AsIntArray\<close> reads an array of integers back, failing on anything else.
\<close>

definition AsArray :: "int64 list \<Rightarrow> Any" where
  "AsArray shp = AArray (map AInt shp)"

fun AsIntArray_elems :: "Any list \<Rightarrow> error + int64 list" where
  "AsIntArray_elems [] = Inr []"
| "AsIntArray_elems (AInt i # rest) =
     (case AsIntArray_elems rest of Inl e \<Rightarrow> Inl e | Inr is \<Rightarrow> Inr (i # is))"
| "AsIntArray_elems (_ # rest) = Inl TypeMismatch"

fun AsIntArray :: "Any \<Rightarrow> error + int64 list" where
  "AsIntArray (AArray arr) = AsIntArray_elems arr"
| "AsIntArray _ = Inl TypeMismatch"

text \<open>
  \<^verbatim>\<open>TensorInfoNode::AsJSON\<close>. The printer \<^verbatim>\<open>DLDataTypeToString\<close> is declared in
  another file of the repository and is a parameter.
\<close>

definition AsJSON :: "(DataType \<Rightarrow> string) \<Rightarrow> ArgInfo \<Rightarrow> Any" where
  "AsJSON DLDataTypeToString self =
     (let tag = ''TENSOR'';
          dtype_str = DLDataTypeToString (dtype self);
          shp = AsArray (shape self)
      in AArray [AStr tag, AStr dtype_str, shp])"

text \<open>
  \<^verbatim>\<open>TensorInfo::FromJSON\<close>. The parser \<^verbatim>\<open>StringToDLDataType\<close> is declared in another
  file of the repository and is a parameter, which may fail. Every exception raised
  inside the \<^verbatim>\<open>try\<close> block (the failed \<^verbatim>\<open>CHECK\<close>, a failed cast, a failure of the
  dtype parser or of \<^verbatim>\<open>AsIntArray\<close>) is caught and turned into the fatal error that
  streams \<^verbatim>\<open>json_obj\<close>. The tag at index 0 is not looked at.
\<close>

definition TensorInfo_FromJSON :: "(string \<Rightarrow> error + DataType) \<Rightarrow> Any \<Rightarrow> error + ArgInfo" where
  "TensorInfo_FromJSON StringToDLDataType json_obj =
     (case json_obj of
        AArray json_array \<Rightarrow>
          if length json_array = 3 then
            (case json_array ! 1 of
               AStr dtype_str \<Rightarrow>
                 (case StringToDLDataType dtype_str of
                    Inl e \<Rightarrow> Inl (ParseError json_obj)
                  | Inr dt \<Rightarrow>
                      (case AsIntArray (json_array ! 2) of
                         Inl e \<Rightarrow> Inl (ParseError json_obj)
                       | Inr shp \<Rightarrow> Inr (TensorInfo dt shp)))
             | _ \<Rightarrow> Inl (ParseError json_obj))
          else Inl (ParseError json_obj)
      | _ \<Rightarrow> Inl (ParseError json_obj))"

text \<open>
  \<^verbatim>\<open>ArgInfo::FromJSON\<close>: step 1 extracts the tag (any exception there is caught and
  becomes the fatal parse error), step 2 dispatches on it.
\<close>

definition ArgInfo_FromJSON :: "(string \<Rightarrow> error + DataType) \<Rightarrow> Any \<Rightarrow> error + ArgInfo" where
  "ArgInfo_FromJSON StringToDLDataType json_obj =
     (case json_obj of
        AArray json_array \<Rightarrow>
          if length json_array \<ge> 1 then
            (case json_array ! 0 of
               AStr tag \<Rightarrow>
                 if tag = ''TENSOR'' then TensorInfo_FromJSON StringToDLDataType json_obj
                 else Inl (ParseError json_obj)
             | _ \<Rightarrow> Inl (ParseError json_obj))
          else Inl (ParseError json_obj)
      | _ \<Rightarrow> Inl (ParseError json_obj))"

subsection \<open>Vocabulary for FromPrimFunc\<close>

text \<open>The parameter is bound to a buffer: \<^verbatim>\<open>func->buffer_map.Get(arg)\<close> is defined.\<close>

definition bound_to_buffer :: "PrimFunc \<Rightarrow> Var \<Rightarrow> bool" where
  "bound_to_buffer func arg = (map_of (buffer_map func) arg \<noteq> None)"

text \<open>
  The parameter is bound to a buffer whose extents \<open>AsVector\<close> reads as 64-bit
  integers.
\<close>

definition reads_tensor :: "(PrimExpr list \<Rightarrow> error + int64 list) \<Rightarrow> PrimFunc \<Rightarrow> Var \<Rightarrow> bool" where
  "reads_tensor AsVector func arg =
     (case map_of (buffer_map func) arg of
        None \<Rightarrow> False
      | Some buffer \<Rightarrow> (case AsVector (buf_shape buffer) of Inl e \<Rightarrow> False | Inr s \<Rightarrow> True))"

text \<open>
  The descriptor \<open>info\<close> is the \<^verbatim>\<open>TensorInfo\<close> of the buffer that \<open>arg\<close> is bound
  to: its dtype is the buffer's, its shape the buffer's extents as read by \<open>AsVector\<close>.
\<close>

definition tensor_of ::
  "(PrimExpr list \<Rightarrow> error + int64 list) \<Rightarrow> PrimFunc \<Rightarrow> Var \<Rightarrow> ArgInfo \<Rightarrow> bool" where
  "tensor_of AsVector func arg info =
     (case map_of (buffer_map func) arg of
        None \<Rightarrow> False
      | Some buffer \<Rightarrow>
          dtype info = buf_dtype buffer \<and> AsVector (buf_shape buffer) = Inr (shape info))"

section \<open>measure\_callback/remove\_build\_artifact.cc\<close>

text \<open>
  \<^verbatim>\<open>BuilderResult\<close>: the artifact path when the build succeeded, the error message when
  it failed.
\<close>

record BuilderResult =
  artifact_path :: "string option"
  error_msg :: "string option"

text \<open>
  The removal function is the global function \<^verbatim>\<open>meta_schedule.remove_build_dir\<close>,
  registered from outside the program. A call acts on the state \<open>'w\<close> outside the
  program (the file system) and either returns normally (\<open>None\<close>) or raises.
\<close>

type_synonym 'w removal = "string \<Rightarrow> 'w \<Rightarrow> error option \<times> 'w"

text \<open>
  The loop of \<^verbatim>\<open>RemoveBuildArtifactNode::Apply\<close> over \<^verbatim>\<open>builder_results\<close>. There is no
  \<^verbatim>\<open>try\<close> around the call \<^verbatim>\<open>f_rm(path.value())\<close>: a call that raises ends the loop.
\<close>

fun RemoveBuildArtifact_loop ::
  "'w removal \<Rightarrow> BuilderResult list \<Rightarrow> 'w \<Rightarrow> error option \<times> 'w" where
  "RemoveBuildArtifact_loop f_rm [] w = (None, w)"
| "RemoveBuildArtifact_loop f_rm (build_result # rest) w =
     (case artifact_path build_result of
        Some path \<Rightarrow>
          (case f_rm path w of
             (Some e, w') \<Rightarrow> (Some e, w')
           | (None, w') \<Rightarrow> RemoveBuildArtifact_loop f_rm rest w')
      | None \<Rightarrow> RemoveBuildArtifact_loop f_rm rest w)"

text \<open>
  \<^verbatim>\<open>RemoveBuildArtifactNode::Apply\<close>. \<^verbatim>\<open>f_rm\<close> is a function-local static: it is
  initialized, on the first call that reaches it, by the lookup of the name in the table
  of global functions (\<^verbatim>\<open>GetGlobalRequired\<close> raises when the name is not registered, and
  the static stays uninitialized), and later calls use the function found then.
  \<open>f_rm_static\<close> is the static before the call (\<open>None\<close> when uninitialized); the
  result is the error raised, if any, the static after the call, and the outside state.
  The scheduler, the task id, the candidates and the runner results are not read by the
  body.
\<close>

definition RemoveBuildArtifact_Apply ::
  "(string \<Rightarrow> 'w removal option) \<Rightarrow> 'w removal option \<Rightarrow> BuilderResult list \<Rightarrow> 'w
     \<Rightarrow> error option \<times> 'w removal option \<times> 'w" where
  "RemoveBuildArtifact_Apply globals f_rm_static builder_results w =
     (case (case f_rm_static of
              Some f \<Rightarrow> Some f
            | None \<Rightarrow> globals ''meta_schedule.remove_build_dir'') of
        None \<Rightarrow> (Some (GlobalFunctionMissing ''meta_schedule.remove_build_dir''), None, w)
      | Some f_rm \<Rightarrow>
          (case RemoveBuildArtifact_loop f_rm builder_results w of
             (outcome, w') \<Rightarrow> (outcome, Some f_rm, w')))"

subsection \<open>Vocabulary for RemoveBuildArtifact\<close>

text \<open>The defined artifact paths of the builder results, in the order of the results.\<close>

definition defined_paths :: "BuilderResult list \<Rightarrow> string list" where
  "defined_paths builder_results = List.map_filter artifact_path builder_results"

text \<open>
  The removal function called on each path of a list in turn, up to and including the
  first call that raises.
\<close>

fun remove_each :: "'w removal \<Rightarrow> string list \<Rightarrow> 'w \<Rightarrow> error option \<times> 'w" where
  "remove_each f_rm [] w = (None, w)"
| "remove_each f_rm (path # rest) w =
     (case f_rm path w of
        (Some e, w') \<Rightarrow> (Some e, w')
      | (None, w') \<Rightarrow> remove_each f_rm rest w')"

text \<open>
  The removal function that only records the paths it is called with, in call order,
  and raises on the paths of the list \<open>bad\<close>.
\<close>

definition record_call :: "string list \<Rightarrow> string list removal" where
  "record_call bad path calls =
     (if path \<in> set bad then Some (RemovalFailed path) else None, calls @ [path])"

text \<open>A table of global functions that registers \<open>f_rm\<close> as the removal function.\<close>

definition registered :: "'w removal \<Rightarrow> string \<Rightarrow> 'w removal option" where
  "registered f_rm name = (if name = ''meta_schedule.remove_build_dir'' then Some f_rm else None)"

section \<open>mutator/mutate\_compute\_location.cc\<close>

text \<open>
  Modelled from the spec: the classes \<^verbatim>\<open>Instruction\<close> and \<^verbatim>\<open>Trace\<close> are declared in
  other files of the repository. The spec (3): an instruction is "{kind, inputs, attrs,
  decision: optional literal}", the kind being the name under which the primitive is
  registered; a trace is the "ordered sequence of Instructions". The decision is
  \<open>ANone\<close> when the instruction has none.
\<close>

record Instruction =
  kind :: string
  inputs :: "Any list"
  inst_attrs :: "Any list"
  decision :: Any

type_synonym Trace = "Instruction list"

type_synonym TRandState = int64

text \<open>
  \<^verbatim>\<open>struct Candidate\<close>: the \<^verbatim>\<open>SampleComputeLocation\<close> instruction and the candidate
  compute-at locations (a \<^verbatim>\<open>std::vector<int>\<close>).
\<close>

datatype Candidate = Candidate (cand_inst: Instruction) (cand_locs: "int32 list")

text \<open>
  What the mutator calls and other files of the repository define is gathered in one
  record of parameters; \<open>'s\<close> is the state of a schedule (the program under
  transformation with its random variables).
  \<^item> \<open>Traced json_mod seed\<close>: \<^verbatim>\<open>tir::Schedule::Traced(LoadJSON(json_mod), seed, ...)\<close>,
    the fresh schedule of the workload;
  \<^item> \<open>f_apply_to_schedule sch inst decision\<close>: the primitive registered for the kind of
    \<open>inst\<close>, applied to the schedule with the given decision; it fails with a
    \<^verbatim>\<open>ScheduleError\<close> when the instruction is not legal in that state;
  \<^item> \<open>CollectComputeLocation sch block\<close>:
    \<^verbatim>\<open>CollectComputeLocation(sch->state(), sch->GetSRef(Downcast<BlockRV>(block)))\<close>, the
    legal compute-at locations of the block, each a pair of the location's reference and
    its index (the two vectors of the source, side by side);
  \<^item> \<open>IsPostproc inst\<close>: the instruction is tagged as a postprocessing step;
  \<^item> \<open>ForkSeed rand_state\<close> and \<open>SampleInt rand_state min_inclusive max_exclusive\<close>:
    the two operations on the random state; each returns its value and the advanced
    state (the source passes \<^verbatim>\<open>TRandState*\<close>);
  \<^item> \<open>WithDecision trace inst decision remove_postproc\<close>: \<^verbatim>\<open>TraceNode::WithDecision\<close>.
\<close>

record 's engine =
  Traced :: "string \<Rightarrow> TRandState \<Rightarrow> 's"
  f_apply_to_schedule :: "'s \<Rightarrow> Instruction \<Rightarrow> Any \<Rightarrow> error + 's"
  CollectComputeLocation :: "'s \<Rightarrow> Any \<Rightarrow> error + (nat \<times> int32) list"
  IsPostproc :: "Instruction \<Rightarrow> bool"
  ForkSeed :: "TRandState \<Rightarrow> TRandState \<times> TRandState"
  SampleInt :: "TRandState \<Rightarrow> int32 \<Rightarrow> int32 \<Rightarrow> int32 \<times> TRandState"
  WithDecision :: "Trace \<Rightarrow> Instruction \<Rightarrow> Any \<Rightarrow> bool \<Rightarrow> Trace"

text \<open>
  Modelled from the spec: \<^verbatim>\<open>TraceNode::ApplyToSchedule\<close> is declared in another file of
  the repository. The spec (4.1): it "replays the trace against a fresh schedule-state object, invoking, for
  each instruction, a primitive implementation resolved by kind; a caller-supplied
  decision provider may observe/override each stochastic instruction's decision before it
  is applied"; \<^verbatim>\<open>removePostproc\<close> "strips any trailing instructions tagged as
  post-processing"; and "replay fails with a ScheduleError if a decision is invalid for
  the current program state". The provider of the source is a closure over the schedule
  and over the vector it appends to: here it receives the schedule and the accumulator
  \<open>acc\<close> and returns the decision to apply with the new accumulator, or fails.
\<close>

definition strip_postproc :: "'s engine \<Rightarrow> Trace \<Rightarrow> Trace" where
  "strip_postproc E trace = rev (dropWhile (IsPostproc E) (rev trace))"

fun replay ::
  "'s engine \<Rightarrow> ('s \<Rightarrow> Instruction \<Rightarrow> Any list \<Rightarrow> Any list \<Rightarrow> Any \<Rightarrow> 'a \<Rightarrow> error + Any \<times> 'a)
     \<Rightarrow> Instruction list \<Rightarrow> 's \<Rightarrow> 'a \<Rightarrow> error + 's \<times> 'a" where
  "replay E decision_provider [] sch acc = Inr (sch, acc)"
| "replay E decision_provider (inst # rest) sch acc =
     (case decision_provider sch inst (inputs inst) (inst_attrs inst) (decision inst) acc of
        Inl e \<Rightarrow> Inl e
      | Inr (d, acc') \<Rightarrow>
          (case f_apply_to_schedule E sch inst d of
             Inl e \<Rightarrow> Inl e
           | Inr sch' \<Rightarrow> replay E decision_provider rest sch' acc'))"

definition ApplyToSchedule ::
  "'s engine \<Rightarrow> Trace \<Rightarrow> 's \<Rightarrow> bool
     \<Rightarrow> ('s \<Rightarrow> Instruction \<Rightarrow> Any list \<Rightarrow> Any list \<Rightarrow> Any \<Rightarrow> 'a \<Rightarrow> error + Any \<times> 'a)
     \<Rightarrow> 'a \<Rightarrow> error + 's \<times> 'a" where
  "ApplyToSchedule E trace sch remove_postproc decision_provider acc =
     replay E decision_provider (if remove_postproc then strip_postproc E trace else trace)
       sch acc"

text \<open>
  Step 3 of the decision provider: \<^verbatim>\<open>std::find\<close> of the old decision among the
  location indices and, when found, the erasure of that position from both vectors.
\<close>

fun erase_location :: "int32 \<Rightarrow> (nat \<times> int32) list \<Rightarrow> (nat \<times> int32) list" where
  "erase_location old_decision [] = []"
| "erase_location old_decision ((sref, idx) # rest) =
     (if idx = old_decision then rest else (sref, idx) # erase_location old_decision rest)"

text \<open>
  The lambda \<^verbatim>\<open>f_decision_provider\<close> of \<^verbatim>\<open>FindCandidates\<close>. \<open>candidates\<close> is the vector
  it appends to. \<^verbatim>\<open>ICHECK_EQ(inputs.size(), 1)\<close> and the downcast of the decision to an
  integer can fail; \<^verbatim>\<open>int old_decision\<close> keeps the low 32 bits of the 64-bit value. The
  second \<^verbatim>\<open>ICHECK_EQ\<close> compares the sizes of the two vectors, which stay equal (one list
  of pairs here). The provider always returns the decision it was given.
\<close>

definition f_decision_provider ::
  "'s engine \<Rightarrow> 's \<Rightarrow> Instruction \<Rightarrow> Any list \<Rightarrow> Any list \<Rightarrow> Any \<Rightarrow> Candidate list
     \<Rightarrow> error + Any \<times> Candidate list" where
  "f_decision_provider E sch inst inps atts dec candidates =
     (if kind inst = ''SampleComputeLocation'' then
        (if length inps \<noteq> 1 then Inl CheckFailed
         else
           (case dec of
              AInt v \<Rightarrow>
                (let old_decision = (ucast v :: int32) in
                 case CollectComputeLocation E sch (inps ! 0) of
                   Inl e \<Rightarrow> Inl e
                 | Inr locations \<Rightarrow>
                     (let remaining = erase_location old_decision locations in
                      if remaining \<noteq> []
                      then Inr (dec, candidates @ [Candidate inst (map snd remaining)])
                      else Inr (dec, candidates)))
            | _ \<Rightarrow> Inl TypeMismatch))
      else Inr (dec, candidates))"

text \<open>
  \<^verbatim>\<open>MutateComputeLocationNode::FindCandidates\<close>; \<open>json_mod\<close> is the field
  \<^verbatim>\<open>json_mod_\<close> of the mutator. It returns the candidates and the random state after the
  fork.
\<close>

definition FindCandidates ::
  "'s engine \<Rightarrow> string \<Rightarrow> Trace \<Rightarrow> TRandState \<Rightarrow> error + Candidate list \<times> TRandState" where
  "FindCandidates E json_mod trace rand_state =
     (let (seed, rand_state') = ForkSeed E rand_state;
          sch = Traced E json_mod seed
      in case ApplyToSchedule E trace sch True (f_decision_provider E) [] of
           Inl e \<Rightarrow> Inl e
         | Inr (sch', candidates) \<Rightarrow> Inr (candidates, rand_state'))"

text \<open>
  \<^verbatim>\<open>MutateComputeLocationNode::Apply\<close>. The result is the optional trace and the random
  state after the call. \<^verbatim>\<open>SampleInt\<close> returns an \<^verbatim>\<open>int32_t\<close> that indexes a vector; an
  index outside the vector is an error here.
\<close>

definition MutateComputeLocation_Apply ::
  "'s engine \<Rightarrow> string \<Rightarrow> Trace \<Rightarrow> TRandState \<Rightarrow> error + Trace option \<times> TRandState" where
  "MutateComputeLocation_Apply E json_mod trace rand_state =
     (case FindCandidates E json_mod trace rand_state of
        Inl e \<Rightarrow> Inl e
      | Inr (candidates, rs1) \<Rightarrow>
          if candidates = [] then Inr (None, rs1)
          else
            (let (k, rs2) = SampleInt E rs1 0 (of_nat (length candidates)) in
             if 0 \<le> sint k \<and> nat (sint k) < length candidates then
               (let candidate = candidates ! nat (sint k);
                    (j, rs3) = SampleInt E rs2 0 (of_nat (length (cand_locs candidate))) in
                if 0 \<le> sint j \<and> nat (sint j) < length (cand_locs candidate) then
                  (let loc = cand_locs candidate ! nat (sint j) in
                   Inr (Some (WithDecision E trace (cand_inst candidate) (AInt (scast loc)) True),
                        rs3))
                else Inl IndexOutOfRange)
             else Inl IndexOutOfRange))"

subsection \<open>Vocabulary for the mutator\<close>

text \<open>
  The replay of a trace with its recorded decisions: the instructions it reaches, each
  with the schedule state it is reached in (the instruction's current program state).
  The replay stops at the first instruction that fails to apply.
\<close>

fun replay_points :: "'s engine \<Rightarrow> Instruction list \<Rightarrow> 's \<Rightarrow> ('s \<times> Instruction) list" where
  "replay_points E [] sch = []"
| "replay_points E (inst # rest) sch =
     (sch, inst) #
     (case f_apply_to_schedule E sch inst (decision inst) of
        Inl e \<Rightarrow> []
      | Inr sch' \<Rightarrow> replay_points E rest sch')"

text \<open>The trace replays with its recorded decisions: every instruction applies.\<close>

fun replays :: "'s engine \<Rightarrow> Instruction list \<Rightarrow> 's \<Rightarrow> bool" where
  "replays E [] sch = True"
| "replays E (inst # rest) sch =
     (case f_apply_to_schedule E sch inst (decision inst) of
        Inl e \<Rightarrow> False
      | Inr sch' \<Rightarrow> replays E rest sch')"

text \<open>
  At a point of the replay, a \<^verbatim>\<open>SampleComputeLocation\<close> instruction has no legal
  compute-at location other than its current decision: the instruction has one input and
  an integer decision, the legal locations of its block are collected, no location is
  listed twice, and every one of them is the decision.
\<close>

definition no_other_location :: "'s engine \<Rightarrow> 's \<times> Instruction \<Rightarrow> bool" where
  "no_other_location E p =
     (case p of (sch, inst) \<Rightarrow>
        (if kind inst = ''SampleComputeLocation'' then
           length (inputs inst) = 1 \<and>
           (case decision inst of
              AInt v \<Rightarrow>
                (case CollectComputeLocation E sch (inputs inst ! 0) of
                   Inl e \<Rightarrow> False
                 | Inr locations \<Rightarrow>
                     distinct (map snd locations)
                     \<and> list_all (\<lambda>loc. (scast loc :: int64) = v) (map snd locations))
            | _ \<Rightarrow> False)
         else True))"

text \<open>
  The candidate that a point of the replay is eligible for: a \<^verbatim>\<open>SampleComputeLocation\<close>
  instruction with the legal locations of its block in the current state, the current
  decision excluded, when at least one location is left.
\<close>

definition eligible_at :: "'s engine \<Rightarrow> 's \<times> Instruction \<Rightarrow> Candidate list" where
  "eligible_at E p =
     (case p of (sch, inst) \<Rightarrow>
        (if kind inst = ''SampleComputeLocation'' then
           (case decision inst of
              AInt v \<Rightarrow>
                (case CollectComputeLocation E sch (inputs inst ! 0) of
                   Inl e \<Rightarrow> []
                 | Inr locations \<Rightarrow>
                     (let alternatives = remove1 (ucast v) (map snd locations) in
                      if alternatives = [] then [] else [Candidate inst alternatives]))
            | _ \<Rightarrow> [])
         else []))"

text \<open>
  The schedule that \<^verbatim>\<open>FindCandidates\<close> replays on, the points of its replay of the trace
  (postprocessing removed), and the candidates that these points are eligible for, in
  replay order.
\<close>

definition start_schedule :: "'s engine \<Rightarrow> string \<Rightarrow> TRandState \<Rightarrow> 's" where
  "start_schedule E json_mod rand_state = Traced E json_mod (fst (ForkSeed E rand_state))"

definition trace_points ::
  "'s engine \<Rightarrow> string \<Rightarrow> Trace \<Rightarrow> TRandState \<Rightarrow> ('s \<times> Instruction) list" where
  "trace_points E json_mod trace rand_state =
     replay_points E (strip_postproc E trace) (start_schedule E json_mod rand_state)"

definition eligible :: "'s engine \<Rightarrow> string \<Rightarrow> Trace \<Rightarrow> TRandState \<Rightarrow> Candidate list" where
  "eligible E json_mod trace rand_state =
     concat (map (eligible_at E) (trace_points E json_mod trace rand_state))"

subsection \<open>The two draws of Apply as a distribution\<close>

text \<open>
  A finite distribution: the outcomes with their probabilities; the probability of an
  outcome is the sum of the weights it is listed with.
\<close>

type_synonym 'a dist = "('a \<times> rat) list"






section \<open>Concrete inputs\<close>

text \<open>
  A PrimFunc with one parameter (whose address is \<open>n\<close>), no buffer, and the
  entry-function attribute set to \<open>flag\<close>.
\<close>

definition demo_func :: "nat \<Rightarrow> int \<Rightarrow> PrimFunc" where
  "demo_func n flag =
     \<lparr>params = [Var n ''A''], buffer_map = [], attrs = [(''tir.is_entry_func'', flag)]\<rparr>"

text \<open>
  A reader of extents that reads a shape of integer constants and fails on a symbolic
  extent.
\<close>

fun const_extents :: "PrimExpr list \<Rightarrow> error + int64 list" where
  "const_extents [] = Inr []"
| "const_extents (IntImm v # rest) =
     (case const_extents rest of Inl e \<Rightarrow> Inl e | Inr vs \<Rightarrow> Inr (v # vs))"
| "const_extents (VarExpr _ # rest) = Inl TypeMismatch"

text \<open>
  Four PrimFuncs: both parameters bound to buffers of constant shape; the second
  parameter not bound to a buffer; the parameter bound to a buffer with a symbolic extent;
  the first parameter bound to a buffer with a symbolic extent and the second not bound.
\<close>

definition demo_matmul :: PrimFunc where
  "demo_matmul =
     \<lparr>params = [Var 0 ''A'', Var 1 ''B''],
      buffer_map =
        [(Var 0 ''A'', \<lparr>buf_dtype = DataType 2 32 1, buf_shape = [IntImm 128, IntImm 64]\<rparr>),
         (Var 1 ''B'', \<lparr>buf_dtype = DataType 0 8 1, buf_shape = [IntImm 64]\<rparr>)],
      attrs = []\<rparr>"

definition demo_scalar_arg :: PrimFunc where
  "demo_scalar_arg =
     \<lparr>params = [Var 0 ''A'', Var 1 ''n''],
      buffer_map =
        [(Var 0 ''A'', \<lparr>buf_dtype = DataType 2 32 1, buf_shape = [IntImm 128, IntImm 64]\<rparr>)],
      attrs = []\<rparr>"

definition demo_dynamic :: PrimFunc where
  "demo_dynamic =
     \<lparr>params = [Var 0 ''A''],
      buffer_map =
        [(Var 0 ''A'',
          \<lparr>buf_dtype = DataType 2 32 1, buf_shape = [VarExpr (Var 7 ''n''), IntImm 64]\<rparr>)],
      attrs = []\<rparr>"

definition demo_symbolic_scalar :: PrimFunc where
  "demo_symbolic_scalar =
     \<lparr>params = [Var 0 ''A'', Var 1 ''n''],
      buffer_map =
        [(Var 0 ''A'',
          \<lparr>buf_dtype = DataType 2 32 1, buf_shape = [VarExpr (Var 7 ''m''), IntImm 64]\<rparr>)],
      attrs = []\<rparr>"

text \<open>A printer and a parser of data types that know \<open>float32\<close> and \<open>int8\<close> only.\<close>

definition demo_DLDataTypeToString :: "DataType \<Rightarrow> string" where
  "demo_DLDataTypeToString dt =
     (if dt = DataType 2 32 1 then ''float32''
      else if dt = DataType 0 8 1 then ''int8'' else ''handle'')"

definition demo_StringToDLDataType :: "string \<Rightarrow> error + DataType" where
  "demo_StringToDLDataType s =
     (if s = ''float32'' then Inr (DataType 2 32 1)
      else if s = ''int8'' then Inr (DataType 0 8 1) else Inl TypeMismatch)"

text \<open>
  A printer that writes every opaque handle (type code 3) as "handle", whatever its
  width, with the parser that reads "handle" as the 64-bit handle.
\<close>

definition handle_DLDataTypeToString :: "DataType \<Rightarrow> string" where
  "handle_DLDataTypeToString dt =
     (if dt_code dt = 3 then ''handle'' else demo_DLDataTypeToString dt)"

definition handle_StringToDLDataType :: "string \<Rightarrow> error + DataType" where
  "handle_StringToDLDataType s =
     (if s = ''handle'' then Inr (DataType 3 64 1) else demo_StringToDLDataType s)"

subsection \<open>A small replay engine\<close>

text \<open>
  An engine to run the mutator on: the schedule state counts the instructions applied; a
  block handle \<open>ABlockRV n\<close> has the \<open>n\<close> legal locations \<open>-1, 0, ..., n - 2\<close>; the
  instruction kind "Illegal" never applies; "EnterPostproc" is the postprocessing
  instruction; the random state advances by a multiplication, and a sample is the state
  reduced to the range. \<open>WithDecision\<close> replaces the decision of the given instruction
  in the trace, stripped of its postprocessing.
\<close>

definition demo_engine :: "nat engine" where
  "demo_engine =
     \<lparr>Traced = (\<lambda>json_mod seed. 0),
      f_apply_to_schedule =
        (\<lambda>sch inst d. if kind inst = ''Illegal'' then Inl ScheduleError else Inr (Suc sch)),
      CollectComputeLocation =
        (\<lambda>sch block. case block of
             ABlockRV n \<Rightarrow> Inr (map (\<lambda>i. (i, word_of_nat i - 1)) [0..<n])
           | _ \<Rightarrow> Inl TypeMismatch),
      IsPostproc = (\<lambda>inst. kind inst = ''EnterPostproc''),
      ForkSeed = (\<lambda>rs. (rs * 32767, rs * 48271)),
      SampleInt =
        (\<lambda>rs min_inclusive max_exclusive.
           (min_inclusive + ucast rs mod (max_exclusive - min_inclusive), rs * 48271)),
      WithDecision =
        (\<lambda>trace inst d remove_postproc.
           map (\<lambda>i. if i = inst then i\<lparr>decision := d\<rparr> else i)
             (if remove_postproc
              then rev (dropWhile (\<lambda>i. kind i = ''EnterPostproc'') (rev trace))
              else trace))\<rparr>"

definition demo_sample :: "nat \<Rightarrow> int64 \<Rightarrow> Instruction" where
  "demo_sample block d =
     \<lparr>kind = ''SampleComputeLocation'', inputs = [ABlockRV block], inst_attrs = [],
      decision = AInt d\<rparr>"

definition demo_inst :: "string \<Rightarrow> Instruction" where
  "demo_inst k = \<lparr>kind = k, inputs = [], inst_attrs = [], decision = ANone\<rparr>"

definition demo_trace :: Trace where
  "demo_trace = [demo_inst ''GetBlock'', demo_sample 3 0, demo_inst ''EnterPostproc'']"

text \<open>
  The same engine, except that every block has the one legal location 5, which the
  collection lists twice.
\<close>

definition demo_engine_dup :: "nat engine" where
  "demo_engine_dup =
     demo_engine\<lparr>CollectComputeLocation := (\<lambda>sch block. Inr [(0, 5), (1, 5)])\<rparr>"

section \<open>Properties of FindEntryFunc\<close>

lemma prim_funcs_Nil [simp]: "prim_funcs [] = []"
  by (simp add: prim_funcs_def map_filter_simps)

lemma prim_funcs_Cons:
  "prim_funcs ((gv, bf) # rest) =
     (case as_PrimFuncNode bf of Some f \<Rightarrow> f # prim_funcs rest | None \<Rightarrow> prim_funcs rest)"
  by (simp add: prim_funcs_def map_filter_simps split: option.splits)

lemma main_funcs_Nil [simp]: "main_funcs [] = []"
  by (simp add: main_funcs_def map_filter_simps)

lemma main_funcs_Cons:
  "main_funcs ((gv, bf) # rest) =
     (case (if name_hint gv = ''main'' then as_PrimFuncNode bf else None) of
        Some f \<Rightarrow> f # main_funcs rest
      | None \<Rightarrow> main_funcs rest)"
  by (simp add: main_funcs_def map_filter_simps split: option.splits)

lemma loop_early_return:
  "\<exists>f\<in>set (prim_funcs irmod). is_entry f \<Longrightarrow>
   FindEntryFunc_loop irmod st = Inl (the (find is_entry (prim_funcs irmod)))"
proof (induction irmod arbitrary: st)
  case Nil
  then show ?case by simp
next
  case (Cons e rest)
  obtain gv bf where e: "e = (gv, bf)" by (cases e)
  obtain n mf lf where st: "st = (n, mf, lf)" by (cases st)
  show ?case
  proof (cases "as_PrimFuncNode bf")
    case None
    with Cons e st show ?thesis by (simp add: prim_funcs_Cons)
  next
    case (Some f)
    show ?thesis
    proof (cases "is_entry f")
      case True
      with Some e st show ?thesis by (simp add: prim_funcs_Cons is_entry_def)
    next
      case False
      with Cons.prems Some e have "\<exists>f\<in>set (prim_funcs rest). is_entry f"
        by (auto simp: prim_funcs_Cons)
      from Cons.IH [OF this] False Some e st show ?thesis
        by (simp add: prim_funcs_Cons is_entry_def)
    qed
  qed
qed

lemma loop_exit:
  "\<forall>f\<in>set (prim_funcs irmod). \<not> is_entry f \<Longrightarrow>
   FindEntryFunc_loop irmod (n, mf, lf) =
     Inr (n + length (prim_funcs irmod),
          (if main_funcs irmod = [] then mf else Some (last (main_funcs irmod))),
          (if prim_funcs irmod = [] then lf else Some (last (prim_funcs irmod))))"
proof (induction irmod arbitrary: n mf lf)
  case Nil
  then show ?case by simp
next
  case (Cons e rest)
  obtain gv bf where e: "e = (gv, bf)" by (cases e)
  show ?case
  proof (cases "as_PrimFuncNode bf")
    case None
    with Cons e show ?thesis by (simp add: prim_funcs_Cons main_funcs_Cons)
  next
    case (Some f)
    with Cons.prems e have nf: "\<not> is_entry f" and rest: "\<forall>f\<in>set (prim_funcs rest). \<not> is_entry f"
      by (auto simp: prim_funcs_Cons)
    from Cons.IH [OF rest] nf Some e show ?thesis
      by (simp add: prim_funcs_Cons main_funcs_Cons is_entry_def)
  qed
qed

lemma find_flagged:
  "\<exists>f\<in>set fs. P f \<Longrightarrow> \<exists>g. find P fs = Some g \<and> g \<in> set fs \<and> P g"
  by (induction fs) auto

lemma main_funcs_subset: "set (main_funcs irmod) \<subseteq> set (prim_funcs irmod)"
proof (induction irmod)
  case Nil
  then show ?case by simp
next
  case (Cons e rest)
  obtain gv bf where e: "e = (gv, bf)" by (cases e)
  with Cons show ?case
    by (auto simp: prim_funcs_Cons main_funcs_Cons split: option.splits if_splits)
qed

lemma FindEntryFunc_flagged:
  assumes "\<exists>f\<in>set (prim_funcs irmod). is_entry f"
  shows "FindEntryFunc irmod = Inr (the (find is_entry (prim_funcs irmod)))"
  using loop_early_return [OF assms] by (simp add: FindEntryFunc_def)

lemma FindEntryFunc_unflagged:
  assumes "\<forall>f\<in>set (prim_funcs irmod). \<not> is_entry f"
  shows "FindEntryFunc irmod =
    (if main_funcs irmod \<noteq> [] then Inr (last (main_funcs irmod))
     else if prim_funcs irmod = [] then Inl (NoPrimFunc irmod)
     else if length (prim_funcs irmod) > 1 then Inl (MultiplePrimFuncs irmod)
     else Inr (last (prim_funcs irmod)))"
  using loop_exit [OF assms, of 0 None None]
  by (simp add: FindEntryFunc_def)

lemma demo_is_entry [simp]: "is_entry (demo_func n flag) = (flag \<noteq> 0)"
  by (simp add: is_entry_def HasNonzeroAttr_def demo_func_def kIsEntryFunc_def)

lemma demo_func_eq [simp]: "(demo_func n a = demo_func m b) = (n = m \<and> a = b)"
  by (auto simp: demo_func_def)

text \<open>
  C1. \<^verbatim>\<open>FindEntryFunc\<close> resolves the entry function by priority. (1) If some PrimFunc
  of the module carries a nonzero entry-function attribute, a flagged PrimFunc is
  returned (the first one in iteration order). (2) Otherwise, if a PrimFunc named
  "main" exists, a PrimFunc named "main" is returned (the last one in iteration
  order). (3) Otherwise, if the module has exactly one PrimFunc, it is returned. In particular a module whose only function
  is an unflagged PrimFunc named "main" resolves to it.
\<close>

theorem FindEntryFunc_priority:
  "((\<exists>f\<in>set (prim_funcs irmod). is_entry f) \<longrightarrow>
      (\<exists>f. FindEntryFunc irmod = Inr f \<and> find is_entry (prim_funcs irmod) = Some f
           \<and> f \<in> set (prim_funcs irmod) \<and> is_entry f))
   \<and> ((\<forall>f\<in>set (prim_funcs irmod). \<not> is_entry f) \<and> main_funcs irmod \<noteq> [] \<longrightarrow>
      FindEntryFunc irmod = Inr (last (main_funcs irmod))
      \<and> last (main_funcs irmod) \<in> set (main_funcs irmod))
   \<and> ((\<forall>f\<in>set (prim_funcs irmod). \<not> is_entry f) \<and> main_funcs irmod = []
        \<and> prim_funcs irmod = [g] \<longrightarrow>
      FindEntryFunc irmod = Inr g)
   \<and> (\<not> is_entry h \<longrightarrow> FindEntryFunc [(GlobalVar ''main'', PrimFuncNode h)] = Inr h)"
proof (intro conjI impI)
  assume a: "\<exists>f\<in>set (prim_funcs irmod). is_entry f"
  from find_flagged [OF a] obtain g where
    g: "find is_entry (prim_funcs irmod) = Some g" "g \<in> set (prim_funcs irmod)" "is_entry g"
    by blast
  with FindEntryFunc_flagged [OF a]
  show "\<exists>f. FindEntryFunc irmod = Inr f \<and> find is_entry (prim_funcs irmod) = Some f
           \<and> f \<in> set (prim_funcs irmod) \<and> is_entry f"
    by simp
next
  assume "(\<forall>f\<in>set (prim_funcs irmod). \<not> is_entry f) \<and> main_funcs irmod \<noteq> []"
  then show "FindEntryFunc irmod = Inr (last (main_funcs irmod))"
    by (simp add: FindEntryFunc_unflagged)
next
  assume "(\<forall>f\<in>set (prim_funcs irmod). \<not> is_entry f) \<and> main_funcs irmod \<noteq> []"
  then show "last (main_funcs irmod) \<in> set (main_funcs irmod)" by simp
next
  assume "(\<forall>f\<in>set (prim_funcs irmod). \<not> is_entry f) \<and> main_funcs irmod = []
        \<and> prim_funcs irmod = [g]"
  then show "FindEntryFunc irmod = Inr g"
    by (simp add: FindEntryFunc_unflagged)
next
  assume "\<not> is_entry h"
  then show "FindEntryFunc [(GlobalVar ''main'', PrimFuncNode h)] = Inr h"
    by (simp add: FindEntryFunc_def is_entry_def)
qed

text \<open>
  The priority at concrete modules: a flagged function wins over "main" and over a later
  flagged one; "main" wins over another PrimFunc; the sole PrimFunc is found beside a
  function of another kind; a lone unflagged "main" is returned.
\<close>

theorem FindEntryFunc_priority_witness:
  "FindEntryFunc [(GlobalVar ''main'', PrimFuncNode (demo_func 0 0)),
                  (GlobalVar ''f'', PrimFuncNode (demo_func 1 1)),
                  (GlobalVar ''g'', PrimFuncNode (demo_func 2 1))] = Inr (demo_func 1 1)
   \<and> FindEntryFunc [(GlobalVar ''f'', PrimFuncNode (demo_func 0 0)),
                    (GlobalVar ''main'', PrimFuncNode (demo_func 1 0)),
                    (GlobalVar ''g'', OtherFunc 7)] = Inr (demo_func 1 0)
   \<and> FindEntryFunc [(GlobalVar ''f'', OtherFunc 3),
                    (GlobalVar ''g'', PrimFuncNode (demo_func 1 0))] = Inr (demo_func 1 0)
   \<and> FindEntryFunc [(GlobalVar ''main'', PrimFuncNode (demo_func 0 0))] = Inr (demo_func 0 0)"
  using FindEntryFunc_priority [of "[(GlobalVar ''main'', PrimFuncNode (demo_func 0 0)),
                  (GlobalVar ''f'', PrimFuncNode (demo_func 1 1)),
                  (GlobalVar ''g'', PrimFuncNode (demo_func 2 1))]" "demo_func 0 0" "demo_func 0 0"]
    FindEntryFunc_priority [of "[(GlobalVar ''f'', PrimFuncNode (demo_func 0 0)),
                    (GlobalVar ''main'', PrimFuncNode (demo_func 1 0)),
                    (GlobalVar ''g'', OtherFunc 7)]" "demo_func 0 0" "demo_func 0 0"]
    FindEntryFunc_priority [of "[(GlobalVar ''f'', OtherFunc 3),
                    (GlobalVar ''g'', PrimFuncNode (demo_func 1 0))]" "demo_func 1 0" "demo_func 0 0"]
  by (simp add: prim_funcs_Cons main_funcs_Cons)

text \<open>
  C2, as the claim states it, fails: a module of two unflagged PrimFuncs one of which is
  named "main" resolves to that function (priority 2) instead of failing.
\<close>

theorem FindEntryFunc_two_unflagged_counterexample:
  "length [(GlobalVar ''main'', PrimFuncNode (demo_func 0 0)),
           (GlobalVar ''helper'', PrimFuncNode (demo_func 1 0))] = 2
   \<and> \<not> is_entry (demo_func 0 0) \<and> \<not> is_entry (demo_func 1 0)
   \<and> FindEntryFunc [(GlobalVar ''main'', PrimFuncNode (demo_func 0 0)),
                    (GlobalVar ''helper'', PrimFuncNode (demo_func 1 0))]
       = Inr (demo_func 0 0)"
  by (simp add: FindEntryFunc_def is_entry_def [symmetric])

text \<open>
  C2, amended. If the module that \<^verbatim>\<open>FindEntryFunc\<close> inspects has at least two
  PrimFuncs, none of them carrying a nonzero entry-function attribute and none of them
  named "main", then \<^verbatim>\<open>FindEntryFunc\<close> fails with the fatal "multiple PrimFuncs"
  error that streams that module, and so does \<^verbatim>\<open>ArgInfo::FromEntryFunc\<close> (which inspects
  the module itself, or the result of the pass when \<^verbatim>\<open>remove_preproc\<close> is set).
\<close>

theorem FindEntryFunc_ambiguous_fails:
  assumes "inspected = (if remove_preproc then RemoveWeightLayoutRewriteBlock irmod else irmod)"
    and "\<forall>f\<in>set (prim_funcs inspected). \<not> is_entry f"
    and "main_funcs inspected = []"
    and "length (prim_funcs inspected) \<ge> 2"
  shows "FindEntryFunc inspected = Inl (MultiplePrimFuncs inspected)
    \<and> error_module (MultiplePrimFuncs inspected) = Some inspected
    \<and> FromEntryFunc AsVector RemoveWeightLayoutRewriteBlock irmod remove_preproc
        = Inl (MultiplePrimFuncs inspected)"
proof -
  from assms(4) have ne: "prim_funcs inspected \<noteq> []" by auto
  have 1: "FindEntryFunc inspected = Inl (MultiplePrimFuncs inspected)"
    using assms(3,4) ne by (simp add: FindEntryFunc_unflagged [OF assms(2)])
  have 2: "FromEntryFunc AsVector RemoveWeightLayoutRewriteBlock irmod remove_preproc
        = Inl (MultiplePrimFuncs inspected)"
    using 1 unfolding assms(1)
    by (cases remove_preproc) (simp_all add: FromEntryFunc_def Let_def)
  from 1 2 show ?thesis by simp
qed

theorem FindEntryFunc_ambiguous_fails_witness:
  "FindEntryFunc [(GlobalVar ''f'', PrimFuncNode (demo_func 0 0)),
                  (GlobalVar ''g'', PrimFuncNode (demo_func 1 0))]
     = Inl (MultiplePrimFuncs [(GlobalVar ''f'', PrimFuncNode (demo_func 0 0)),
                               (GlobalVar ''g'', PrimFuncNode (demo_func 1 0))])
   \<and> FromEntryFunc (\<lambda>es. Inr []) (\<lambda>m. m)
        [(GlobalVar ''f'', PrimFuncNode (demo_func 0 0)),
         (GlobalVar ''g'', PrimFuncNode (demo_func 1 0))] False
     = Inl (MultiplePrimFuncs [(GlobalVar ''f'', PrimFuncNode (demo_func 0 0)),
                               (GlobalVar ''g'', PrimFuncNode (demo_func 1 0))])"
  using FindEntryFunc_ambiguous_fails [of
      "[(GlobalVar ''f'', PrimFuncNode (demo_func 0 0)),
        (GlobalVar ''g'', PrimFuncNode (demo_func 1 0))]"
      False "\<lambda>m. m"
      "[(GlobalVar ''f'', PrimFuncNode (demo_func 0 0)),
        (GlobalVar ''g'', PrimFuncNode (demo_func 1 0))]" "\<lambda>es. Inr []"]
  by (simp add: prim_funcs_Cons main_funcs_Cons)


lemma loop_ignores_other_kinds:
  "FindEntryFunc_loop irmod st = FindEntryFunc_loop (filter is_PrimFunc_entry irmod) st"
proof (induction irmod arbitrary: st)
  case Nil
  then show ?case by simp
next
  case (Cons e rest)
  obtain gv bf where e: "e = (gv, bf)" by (cases e)
  obtain n mf lf where st: "st = (n, mf, lf)" by (cases st)
  from Cons e st show ?case
    by (cases "as_PrimFuncNode bf") (simp_all add: is_PrimFunc_entry_def)
qed

lemma prim_funcs_filter: "prim_funcs (filter is_PrimFunc_entry irmod) = prim_funcs irmod"
proof (induction irmod)
  case Nil
  then show ?case by simp
next
  case (Cons e rest)
  obtain gv bf where e: "e = (gv, bf)" by (cases e)
  from Cons e show ?case
    by (cases "as_PrimFuncNode bf") (simp_all add: is_PrimFunc_entry_def prim_funcs_Cons)
qed

lemma FindEntryFunc_sole:
  assumes "prim_funcs irmod = [f]"
  shows "FindEntryFunc irmod = Inr f"
proof (cases "is_entry f")
  case True
  with assms have "\<exists>g\<in>set (prim_funcs irmod). is_entry g" by simp
  from FindEntryFunc_flagged [OF this] assms True show ?thesis by simp
next
  case False
  with assms have nf: "\<forall>g\<in>set (prim_funcs irmod). \<not> is_entry g" by simp
  have "set (main_funcs irmod) \<subseteq> {f}" using main_funcs_subset [of irmod] assms by simp
  then have "main_funcs irmod \<noteq> [] \<Longrightarrow> last (main_funcs irmod) = f"
    using last_in_set by fastforce
  with FindEntryFunc_unflagged [OF nf] assms show ?thesis by simp
qed

text \<open>
  C10. \<^verbatim>\<open>FindEntryFunc\<close> considers PrimFuncs only. The loop reaches the same result
  (the same early return, or the same count, "main" function and last function) on the
  module as on the module with every function of another kind removed; so a module whose
  single PrimFunc stands beside any number of other functions resolves to that PrimFunc,
  and a module without a PrimFunc fails with "cannot find any PrimFunc" however many
  other functions it has.
\<close>

theorem FindEntryFunc_only_PrimFuncs:
  "FindEntryFunc_loop irmod st = FindEntryFunc_loop (filter is_PrimFunc_entry irmod) st
   \<and> (prim_funcs irmod = [f] \<longrightarrow> FindEntryFunc irmod = Inr f)
   \<and> (prim_funcs irmod = [] \<longrightarrow> FindEntryFunc irmod = Inl (NoPrimFunc irmod))"
proof (intro conjI impI)
  show "FindEntryFunc_loop irmod st = FindEntryFunc_loop (filter is_PrimFunc_entry irmod) st"
    by (rule loop_ignores_other_kinds)
next
  assume "prim_funcs irmod = [f]"
  then show "FindEntryFunc irmod = Inr f" by (rule FindEntryFunc_sole)
next
  assume a: "prim_funcs irmod = []"
  then have "\<forall>g\<in>set (prim_funcs irmod). \<not> is_entry g" by simp
  from FindEntryFunc_unflagged [OF this] a main_funcs_subset [of irmod]
  show "FindEntryFunc irmod = Inl (NoPrimFunc irmod)" by simp
qed

theorem FindEntryFunc_only_PrimFuncs_witness:
  "FindEntryFunc [(GlobalVar ''main'', OtherFunc 0),
                  (GlobalVar ''tir_kernel'', PrimFuncNode (demo_func 0 0)),
                  (GlobalVar ''vm_shape'', OtherFunc 1)] = Inr (demo_func 0 0)"
  using FindEntryFunc_only_PrimFuncs [of
     "[(GlobalVar ''main'', OtherFunc 0),
       (GlobalVar ''tir_kernel'', PrimFuncNode (demo_func 0 0)),
       (GlobalVar ''vm_shape'', OtherFunc 1)]" "(0, None, None)" "demo_func 0 0"]
  by (simp add: prim_funcs_Cons)

section \<open>Properties of FromPrimFunc\<close>

lemma FromPrimFunc_loop_Inr:
  "FromPrimFunc_loop AsVector func args acc = Inr result \<Longrightarrow>
   \<exists>new. result = acc @ new \<and> length new = length args
      \<and> (\<forall>i<length args. tensor_of AsVector func (args ! i) (new ! i))"
proof (induction args arbitrary: acc)
  case Nil
  then show ?case by simp
next
  case (Cons arg rest)
  from Cons.prems obtain buffer s where
    b: "map_of (buffer_map func) arg = Some buffer" and
    s: "AsVector (buf_shape buffer) = Inr s" and
    r: "FromPrimFunc_loop AsVector func rest (acc @ [TensorInfo (buf_dtype buffer) s]) = Inr result"
    by (auto split: option.splits sum.splits)
  from Cons.IH [OF r] obtain new where
    new: "result = (acc @ [TensorInfo (buf_dtype buffer) s]) @ new" "length new = length rest"
      "\<forall>i<length rest. tensor_of AsVector func (rest ! i) (new ! i)"
    by blast
  let ?new = "TensorInfo (buf_dtype buffer) s # new"
  have "\<forall>i<length (arg # rest). tensor_of AsVector func ((arg # rest) ! i) (?new ! i)"
  proof (intro allI impI)
    fix i assume "i < length (arg # rest)"
    then show "tensor_of AsVector func ((arg # rest) ! i) (?new ! i)"
      using new(3) b s by (cases i) (simp_all add: tensor_of_def)
  qed
  with new show ?case by (intro exI [of _ ?new]) simp
qed

lemma FromPrimFunc_loop_unbound:
  "\<exists>arg\<in>set args. \<not> bound_to_buffer func arg \<Longrightarrow>
   \<exists>e. FromPrimFunc_loop AsVector func args acc = Inl e"
proof (induction args arbitrary: acc)
  case Nil
  then show ?case by simp
next
  case (Cons arg rest)
  show ?case
  proof (cases "map_of (buffer_map func) arg")
    case None
    then show ?thesis by simp
  next
    case (Some buffer)
    with Cons.prems have "\<exists>arg\<in>set rest. \<not> bound_to_buffer func arg"
      by (auto simp: bound_to_buffer_def)
    from Cons.IH [OF this] Some show ?thesis
      by (cases "AsVector (buf_shape buffer)") simp_all
  qed
qed

lemma FromPrimFunc_loop_tensors:
  "length new = length args \<Longrightarrow>
   \<forall>i<length args. tensor_of AsVector func (args ! i) (new ! i) \<Longrightarrow>
   FromPrimFunc_loop AsVector func args acc = Inr (acc @ new)"
proof (induction args arbitrary: new acc)
  case Nil
  then show ?case by simp
next
  case (Cons arg rest)
  from Cons.prems(1) obtain t ts where new: "new = t # ts" and len: "length ts = length rest"
    by (cases new) auto
  from Cons.prems(2) new have "tensor_of AsVector func arg t" by auto
  then obtain buffer where b: "map_of (buffer_map func) arg = Some buffer"
    and d: "dtype t = buf_dtype buffer" and s: "AsVector (buf_shape buffer) = Inr (shape t)"
    by (auto simp: tensor_of_def split: option.splits)
  from d have t: "TensorInfo (buf_dtype buffer) (shape t) = t" by (cases t) simp
  from Cons.prems(2) new have "\<forall>i<length rest. tensor_of AsVector func (rest ! i) (ts ! i)"
    by auto
  from Cons.IH [OF len this, of "acc @ [t]"] b s t new show ?case by simp
qed

lemma FromPrimFunc_loop_prefix:
  "\<forall>a\<in>set before. reads_tensor AsVector func a \<Longrightarrow>
   \<exists>tensors. length tensors = length before
     \<and> FromPrimFunc_loop AsVector func (before @ rest) acc
         = FromPrimFunc_loop AsVector func rest (acc @ tensors)"
proof (induction before arbitrary: acc)
  case Nil
  then show ?case by simp
next
  case (Cons a before)
  from Cons.prems obtain buffer s where b: "map_of (buffer_map func) a = Some buffer"
    and s: "AsVector (buf_shape buffer) = Inr s"
    by (auto simp: reads_tensor_def split: option.splits sum.splits)
  from Cons.prems have "\<forall>a\<in>set before. reads_tensor AsVector func a" by simp
  from Cons.IH [OF this, of "acc @ [TensorInfo (buf_dtype buffer) s]"] obtain tensors where
    t: "length tensors = length before"
    "FromPrimFunc_loop AsVector func (before @ rest) (acc @ [TensorInfo (buf_dtype buffer) s])
       = FromPrimFunc_loop AsVector func rest ((acc @ [TensorInfo (buf_dtype buffer) s]) @ tensors)"
    by blast
  with b s show ?case
    by (intro exI [of _ "TensorInfo (buf_dtype buffer) s # tensors"]) simp
qed

text \<open>
  C5, as the claim states it, fails. With a reader of extents that rejects a symbolic
  extent, a PrimFunc whose first parameter is bound to a buffer with a symbolic extent and
  whose second parameter is not bound to a buffer fails in the reader, before the loop
  reaches the unbound parameter: the error is not the unsupported-argument error. And a
  PrimFunc whose only parameter is bound to such a buffer has every parameter bound, yet
  no result.
\<close>

theorem FromPrimFunc_symbolic_extent_counterexample:
  "\<not> bound_to_buffer demo_symbolic_scalar (Var 1 ''n'')
   \<and> FromPrimFunc const_extents demo_symbolic_scalar = Inl TypeMismatch
   \<and> bound_to_buffer demo_dynamic (Var 0 ''A'')
   \<and> params demo_dynamic = [Var 0 ''A'']
   \<and> FromPrimFunc const_extents demo_dynamic = Inl TypeMismatch"
  by (simp add: FromPrimFunc_def demo_dynamic_def demo_symbolic_scalar_def bound_to_buffer_def)

text \<open>
  C5, amended. \<^verbatim>\<open>ArgInfo::FromPrimFunc\<close> returns a result exactly when that result has
  one \<^verbatim>\<open>TensorInfo\<close> per parameter, in parameter order, with the dtype of the buffer the
  parameter is bound to and, as shape, the extents of that buffer as the helper
  \<^verbatim>\<open>AsVector\<close> reads them; so the length of a result is the number of parameters, and
  there is a result when every parameter is bound to a buffer whose extents the helper
  reads. A parameter that is not bound to a buffer makes it fail. The failure is that of
  the first parameter that is unbound or whose extents are not read, the parameters before
  it being bound and read: the unsupported-argument error for the parameter when it is
  unbound, the error of the helper otherwise.
\<close>

theorem FromPrimFunc_tensor_per_param:
  "(FromPrimFunc AsVector func = Inr result \<longleftrightarrow>
      length result = length (params func)
      \<and> (\<forall>i<length (params func). tensor_of AsVector func (params func ! i) (result ! i)))
   \<and> ((\<forall>arg\<in>set (params func). reads_tensor AsVector func arg) \<longrightarrow>
      (\<exists>r. FromPrimFunc AsVector func = Inr r \<and> length r = length (params func)))
   \<and> ((\<exists>arg\<in>set (params func). \<not> bound_to_buffer func arg) \<longrightarrow>
      (\<exists>e. FromPrimFunc AsVector func = Inl e))
   \<and> (params func = before @ arg # after
        \<and> (\<forall>a\<in>set before. reads_tensor AsVector func a)
        \<and> \<not> bound_to_buffer func arg \<longrightarrow>
      FromPrimFunc AsVector func = Inl (UnsupportedArgument arg))
   \<and> (params func = before @ arg # after
        \<and> (\<forall>a\<in>set before. reads_tensor AsVector func a)
        \<and> map_of (buffer_map func) arg = Some buffer
        \<and> AsVector (buf_shape buffer) = Inl e \<longrightarrow>
      FromPrimFunc AsVector func = Inl e)"
proof -
  have 1: "FromPrimFunc AsVector func = Inr result \<longleftrightarrow>
      length result = length (params func)
      \<and> (\<forall>i<length (params func). tensor_of AsVector func (params func ! i) (result ! i))"
  proof
    assume "FromPrimFunc AsVector func = Inr result"
    then have "FromPrimFunc_loop AsVector func (params func) [] = Inr result"
      by (simp add: FromPrimFunc_def)
    from FromPrimFunc_loop_Inr [OF this]
    show "length result = length (params func)
      \<and> (\<forall>i<length (params func). tensor_of AsVector func (params func ! i) (result ! i))"
      by auto
  next
    assume "length result = length (params func)
      \<and> (\<forall>i<length (params func). tensor_of AsVector func (params func ! i) (result ! i))"
    then show "FromPrimFunc AsVector func = Inr result"
      using FromPrimFunc_loop_tensors [of result "params func" AsVector func "[]"]
      by (simp add: FromPrimFunc_def)
  qed
  have 2: "\<exists>r. FromPrimFunc AsVector func = Inr r \<and> length r = length (params func)"
    if "\<forall>arg\<in>set (params func). reads_tensor AsVector func arg"
    using FromPrimFunc_loop_prefix [OF that, of "[]" "[]"] by (auto simp: FromPrimFunc_def)
  have 3: "\<exists>e. FromPrimFunc AsVector func = Inl e"
    if "\<exists>arg\<in>set (params func). \<not> bound_to_buffer func arg"
    using FromPrimFunc_loop_unbound [OF that] by (simp add: FromPrimFunc_def)
  have 4: "FromPrimFunc AsVector func = Inl (UnsupportedArgument arg)"
    if "params func = before @ arg # after
        \<and> (\<forall>a\<in>set before. reads_tensor AsVector func a)
        \<and> \<not> bound_to_buffer func arg"
  proof -
    from that have r: "\<forall>a\<in>set before. reads_tensor AsVector func a" by simp
    from FromPrimFunc_loop_prefix [OF r, of "arg # after" "[]"] that show ?thesis
      by (auto simp: FromPrimFunc_def bound_to_buffer_def)
  qed
  have 5: "FromPrimFunc AsVector func = Inl e"
    if "params func = before @ arg # after
        \<and> (\<forall>a\<in>set before. reads_tensor AsVector func a)
        \<and> map_of (buffer_map func) arg = Some buffer
        \<and> AsVector (buf_shape buffer) = Inl e"
  proof -
    from that have r: "\<forall>a\<in>set before. reads_tensor AsVector func a" by simp
    from FromPrimFunc_loop_prefix [OF r, of "arg # after" "[]"] that show ?thesis
      by (auto simp: FromPrimFunc_def)
  qed
  from 1 2 3 4 5 show ?thesis by blast
qed

text \<open>
  At concrete PrimFuncs: two bound parameters of constant shape give two descriptors; an
  unbound second parameter after a bound first one gives the unsupported-argument error
  for it.
\<close>

theorem FromPrimFunc_tensor_per_param_witness:
  "FromPrimFunc const_extents demo_matmul =
      Inr [TensorInfo (DataType 2 32 1) [128, 64], TensorInfo (DataType 0 8 1) [64]]
   \<and> length [TensorInfo (DataType 2 32 1) [128, 64], TensorInfo (DataType 0 8 1) [64]]
       = length (params demo_matmul)
   \<and> FromPrimFunc const_extents demo_scalar_arg = Inl (UnsupportedArgument (Var 1 ''n''))"
  using FromPrimFunc_tensor_per_param [of const_extents demo_matmul
      "[TensorInfo (DataType 2 32 1) [128, 64], TensorInfo (DataType 0 8 1) [64]]"
      "[]" "Var 0 ''A''" "[Var 1 ''B'']"]
    FromPrimFunc_tensor_per_param [of const_extents demo_scalar_arg "[]"
      "[Var 0 ''A'']" "Var 1 ''n''" "[]"]
  by (simp add: FromPrimFunc_def demo_matmul_def demo_scalar_arg_def bound_to_buffer_def
      reads_tensor_def tensor_of_def)

section \<open>Properties of the JSON form\<close>

lemma AsIntArray_elems_AsArray: "AsIntArray_elems (map AInt shp) = Inr shp"
  by (induction shp) simp_all

lemma AsIntArray_AsArray: "AsIntArray (AsArray shp) = Inr shp"
  by (simp add: AsArray_def AsIntArray_elems_AsArray)

text \<open>
  C3, as the claim states it, fails: whether the dtype comes back depends on the printer
  and the parser of data types. With a printer that writes a handle without its width,
  the 32-bit handle tensor comes back as a 64-bit handle tensor; with a parser that does
  not know the printed name, deserialization fails.
\<close>

theorem TensorInfo_json_roundtrip_counterexample:
  "ArgInfo_FromJSON handle_StringToDLDataType
       (AsJSON handle_DLDataTypeToString (TensorInfo (DataType 3 32 1) [4]))
     = Inr (TensorInfo (DataType 3 64 1) [4])
   \<and> TensorInfo (DataType 3 64 1) [4] \<noteq> TensorInfo (DataType 3 32 1) [4]
   \<and> ArgInfo_FromJSON demo_StringToDLDataType
       (AsJSON demo_DLDataTypeToString (TensorInfo (DataType 1 32 1) [4]))
     = Inl (ParseError (AArray [AStr ''TENSOR'', AStr ''handle'', AArray [AInt 4]]))"
  by (simp add: ArgInfo_FromJSON_def TensorInfo_FromJSON_def AsJSON_def AsArray_def
      handle_DLDataTypeToString_def handle_StringToDLDataType_def
      demo_DLDataTypeToString_def demo_StringToDLDataType_def)

text \<open>
  C3, amended. Deserializing the serialization of a \<^verbatim>\<open>TensorInfo\<close> \<open>x\<close>, through
  \<^verbatim>\<open>TensorInfo::FromJSON\<close> or through \<^verbatim>\<open>ArgInfo::FromJSON\<close>, yields the \<^verbatim>\<open>TensorInfo\<close>
  with the shape of \<open>x\<close> and the dtype that the dtype parser reads from the printed
  name of the dtype of \<open>x\<close>, or the parse error when the parser rejects that name; so
  it yields \<open>x\<close> exactly when the parser reads the dtype of \<open>x\<close> back from its
  printed name. A float32 tensor of shape [1, 224, 224, 3] serializes to
  ["TENSOR", "float32", [1, 224, 224, 3]] when float32 prints as "float32", and that
  array deserializes to the tensor when "float32" is read as float32.
\<close>

theorem TensorInfo_json_roundtrip:
  "TensorInfo_FromJSON StringToDLDataType (AsJSON DLDataTypeToString x)
     = (case StringToDLDataType (DLDataTypeToString (dtype x)) of
          Inl e \<Rightarrow> Inl (ParseError (AsJSON DLDataTypeToString x))
        | Inr dt \<Rightarrow> Inr (TensorInfo dt (shape x)))
   \<and> ArgInfo_FromJSON StringToDLDataType (AsJSON DLDataTypeToString x)
     = TensorInfo_FromJSON StringToDLDataType (AsJSON DLDataTypeToString x)
   \<and> (TensorInfo_FromJSON StringToDLDataType (AsJSON DLDataTypeToString x) = Inr x
        \<longleftrightarrow> StringToDLDataType (DLDataTypeToString (dtype x)) = Inr (dtype x))
   \<and> (ArgInfo_FromJSON StringToDLDataType (AsJSON DLDataTypeToString x) = Inr x
        \<longleftrightarrow> StringToDLDataType (DLDataTypeToString (dtype x)) = Inr (dtype x))
   \<and> (DLDataTypeToString float32 = ''float32'' \<longrightarrow>
      AsJSON DLDataTypeToString (TensorInfo float32 [1, 224, 224, 3])
        = AArray [AStr ''TENSOR'', AStr ''float32'', AArray [AInt 1, AInt 224, AInt 224, AInt 3]])
   \<and> (StringToDLDataType ''float32'' = Inr float32 \<longrightarrow>
      ArgInfo_FromJSON StringToDLDataType
          (AArray [AStr ''TENSOR'', AStr ''float32'', AArray [AInt 1, AInt 224, AInt 224, AInt 3]])
        = Inr (TensorInfo float32 [1, 224, 224, 3]))"
proof -
  have t: "TensorInfo_FromJSON StringToDLDataType (AsJSON DLDataTypeToString x)
     = (case StringToDLDataType (DLDataTypeToString (dtype x)) of
          Inl e \<Rightarrow> Inl (ParseError (AsJSON DLDataTypeToString x))
        | Inr dt \<Rightarrow> Inr (TensorInfo dt (shape x)))"
    by (cases "StringToDLDataType (DLDataTypeToString (dtype x))")
       (simp_all add: TensorInfo_FromJSON_def AsJSON_def AsIntArray_AsArray)
  have a: "ArgInfo_FromJSON StringToDLDataType (AsJSON DLDataTypeToString x)
        = TensorInfo_FromJSON StringToDLDataType (AsJSON DLDataTypeToString x)"
    by (simp add: ArgInfo_FromJSON_def AsJSON_def)
  have i: "TensorInfo_FromJSON StringToDLDataType (AsJSON DLDataTypeToString x) = Inr x
        \<longleftrightarrow> StringToDLDataType (DLDataTypeToString (dtype x)) = Inr (dtype x)"
    unfolding t
    by (cases "StringToDLDataType (DLDataTypeToString (dtype x))"; cases x) auto
  have s1: "AsJSON DLDataTypeToString (TensorInfo float32 [1, 224, 224, 3])
        = AArray [AStr ''TENSOR'', AStr ''float32'', AArray [AInt 1, AInt 224, AInt 224, AInt 3]]"
    if "DLDataTypeToString float32 = ''float32''"
    using that by (simp add: AsJSON_def AsArray_def)
  have s2: "ArgInfo_FromJSON StringToDLDataType
          (AArray [AStr ''TENSOR'', AStr ''float32'', AArray [AInt 1, AInt 224, AInt 224, AInt 3]])
        = Inr (TensorInfo float32 [1, 224, 224, 3])"
    if "StringToDLDataType ''float32'' = Inr float32"
    using that by (simp add: ArgInfo_FromJSON_def TensorInfo_FromJSON_def)
  from t a i s1 s2 show ?thesis by simp
qed

theorem TensorInfo_json_roundtrip_witness:
  "AsJSON demo_DLDataTypeToString (TensorInfo (DataType 2 32 1) [1, 224, 224, 3])
     = AArray [AStr ''TENSOR'', AStr ''float32'', AArray [AInt 1, AInt 224, AInt 224, AInt 3]]
   \<and> ArgInfo_FromJSON demo_StringToDLDataType
        (AsJSON demo_DLDataTypeToString (TensorInfo (DataType 2 32 1) [1, 224, 224, 3]))
     = Inr (TensorInfo (DataType 2 32 1) [1, 224, 224, 3])
   \<and> TensorInfo_FromJSON demo_StringToDLDataType
        (AsJSON demo_DLDataTypeToString (TensorInfo (DataType 2 32 1) [1, 224, 224, 3]))
     = Inr (TensorInfo (DataType 2 32 1) [1, 224, 224, 3])"
  using TensorInfo_json_roundtrip [of demo_StringToDLDataType demo_DLDataTypeToString
      "TensorInfo (DataType 2 32 1) [1, 224, 224, 3]" "DataType 2 32 1"]
  by (simp add: demo_DLDataTypeToString_def demo_StringToDLDataType_def AsJSON_def AsArray_def
      TensorInfo_FromJSON_def)

text \<open>
  C4. \<^verbatim>\<open>ArgInfo::FromJSON\<close> fails with the parse error that carries the payload on
  every input that is not an array, or is an array that is empty or whose first element
  is not the string "TENSOR", or is a "TENSOR"-tagged array whose length is not 3.
  \<^verbatim>\<open>TensorInfo::FromJSON\<close> fails the same way on every input that is not an array of
  length 3.
\<close>

theorem FromJSON_rejects_malformed:
  "((\<forall>arr. json_obj \<noteq> AArray arr)
      \<or> (\<exists>arr. json_obj = AArray arr \<and> (arr = [] \<or> arr ! 0 \<noteq> AStr ''TENSOR''))
      \<or> (\<exists>arr. json_obj = AArray arr \<and> arr \<noteq> [] \<and> arr ! 0 = AStr ''TENSOR'' \<and> length arr \<noteq> 3)
     \<longrightarrow> ArgInfo_FromJSON StringToDLDataType json_obj = Inl (ParseError json_obj))
   \<and> ((\<forall>arr. json_obj \<noteq> AArray arr) \<or> (\<exists>arr. json_obj = AArray arr \<and> length arr \<noteq> 3)
     \<longrightarrow> TensorInfo_FromJSON StringToDLDataType json_obj = Inl (ParseError json_obj))"
proof -
  have t: "TensorInfo_FromJSON StringToDLDataType json_obj = Inl (ParseError json_obj)"
    if "(\<forall>arr. json_obj \<noteq> AArray arr) \<or> (\<exists>arr. json_obj = AArray arr \<and> length arr \<noteq> 3)"
    using that by (cases json_obj) (auto simp: TensorInfo_FromJSON_def)
  have a1: "ArgInfo_FromJSON StringToDLDataType json_obj = Inl (ParseError json_obj)"
    if "\<forall>arr. json_obj \<noteq> AArray arr"
    using that by (cases json_obj) (auto simp: ArgInfo_FromJSON_def)
  have a2: "ArgInfo_FromJSON StringToDLDataType json_obj = Inl (ParseError json_obj)"
    if "json_obj = AArray arr" "arr = [] \<or> arr ! 0 \<noteq> AStr ''TENSOR''" for arr
  proof (cases arr)
    case Nil
    with that show ?thesis by (simp add: ArgInfo_FromJSON_def)
  next
    case (Cons tag rest)
    with that show ?thesis
      by (cases tag) (auto simp: ArgInfo_FromJSON_def)
  qed
  have a3: "ArgInfo_FromJSON StringToDLDataType json_obj = Inl (ParseError json_obj)"
    if "json_obj = AArray arr" "arr \<noteq> []" "arr ! 0 = AStr ''TENSOR''" "length arr \<noteq> 3" for arr
  proof -
    from that have "ArgInfo_FromJSON StringToDLDataType json_obj
        = TensorInfo_FromJSON StringToDLDataType json_obj"
      by (cases arr) (auto simp: ArgInfo_FromJSON_def)
    with t that show ?thesis by auto
  qed
  from t a1 a2 a3 show ?thesis by blast
qed

theorem FromJSON_rejects_malformed_witness:
  "ArgInfo_FromJSON demo_StringToDLDataType (AStr ''TENSOR'') = Inl (ParseError (AStr ''TENSOR''))
   \<and> ArgInfo_FromJSON demo_StringToDLDataType (AArray [])  = Inl (ParseError (AArray []))
   \<and> ArgInfo_FromJSON demo_StringToDLDataType (AArray [AStr ''SCALAR'', AStr ''float32'', AArray []])
       = Inl (ParseError (AArray [AStr ''SCALAR'', AStr ''float32'', AArray []]))
   \<and> ArgInfo_FromJSON demo_StringToDLDataType (AArray [AStr ''TENSOR'', AStr ''float32''])
       = Inl (ParseError (AArray [AStr ''TENSOR'', AStr ''float32'']))
   \<and> ArgInfo_FromJSON demo_StringToDLDataType
         (AArray [AStr ''TENSOR'', AStr ''float32'', AArray [AInt 2], AInt 0])
       = Inl (ParseError (AArray [AStr ''TENSOR'', AStr ''float32'', AArray [AInt 2], AInt 0]))"
  using FromJSON_rejects_malformed [of "AStr ''TENSOR''" demo_StringToDLDataType]
    FromJSON_rejects_malformed [of "AArray []" demo_StringToDLDataType]
    FromJSON_rejects_malformed [of "AArray [AStr ''SCALAR'', AStr ''float32'', AArray []]"
       demo_StringToDLDataType]
    FromJSON_rejects_malformed [of "AArray [AStr ''TENSOR'', AStr ''float32'']"
       demo_StringToDLDataType]
    FromJSON_rejects_malformed [of "AArray [AStr ''TENSOR'', AStr ''float32'', AArray [AInt 2], AInt 0]"
       demo_StringToDLDataType]
  by simp

section \<open>Properties of RemoveBuildArtifact\<close>

lemma RemoveBuildArtifact_loop_remove_each:
  "RemoveBuildArtifact_loop f_rm builder_results w
     = remove_each f_rm (defined_paths builder_results) w"
proof (induction builder_results arbitrary: w)
  case Nil
  then show ?case by (simp add: defined_paths_def map_filter_simps)
next
  case (Cons r rest)
  show ?case
  proof (cases "artifact_path r")
    case None
    with Cons show ?thesis by (simp add: defined_paths_def map_filter_simps)
  next
    case (Some path)
    obtain outcome w' where f: "f_rm path w = (outcome, w')" by (cases "f_rm path w")
    with Some Cons show ?thesis
      by (cases outcome) (simp_all add: defined_paths_def map_filter_simps)
  qed
qed

lemma remove_each_record_ok:
  "\<forall>p\<in>set paths. p \<notin> set bad \<Longrightarrow>
   remove_each (record_call bad) paths calls = (None, calls @ paths)"
  by (induction paths arbitrary: calls) (simp_all add: record_call_def)

lemma remove_each_record_raise:
  "\<forall>p\<in>set before. p \<notin> set bad \<Longrightarrow> path \<in> set bad \<Longrightarrow>
   remove_each (record_call bad) (before @ path # after) calls
     = (Some (RemovalFailed path), calls @ before @ [path])"
  by (induction before arbitrary: calls) (simp_all add: record_call_def)

lemma defined_paths_skip:
  "artifact_path r = None \<Longrightarrow>
   defined_paths (before @ r # after) = defined_paths before @ defined_paths after"
  by (simp add: defined_paths_def map_filter_def)

text \<open>
  C9, as the claim states it, fails: the removal function is called without a
  \<^verbatim>\<open>try\<close>, so a removal that raises ends the loop. Here the removal of the first
  artifact raises, and the second result, whose artifact path is defined, is never
  removed.
\<close>

theorem RemoveBuildArtifact_raise_counterexample:
  "RemoveBuildArtifact_Apply (registered (record_call [''/tmp/a.tar''])) None
     [\<lparr>artifact_path = Some ''/tmp/a.tar'', error_msg = None\<rparr>,
      \<lparr>artifact_path = Some ''/tmp/c.tar'', error_msg = None\<rparr>] []
   = (Some (RemovalFailed ''/tmp/a.tar''), Some (record_call [''/tmp/a.tar'']), [''/tmp/a.tar''])"
  by (simp add: RemoveBuildArtifact_Apply_def registered_def record_call_def)

text \<open>
  C9, amended. With the removal function registered (or found by an earlier run),
  \<^verbatim>\<open>RemoveBuildArtifact\<close> calls it on the defined artifact paths of the round, one call
  per builder result that has a path, in the order of the results, up to and including
  the first call that raises: exactly once, with that path, for each result with a
  defined path when no call raises. A result without a path (an error-carrying result)
  causes no call and does not stop the processing of the results after it. A call that
  raises ends the callback with its error, and the results after it are not processed.
  The function used is the one found by the first lookup, whatever is registered later.
\<close>

theorem RemoveBuildArtifact_calls:
  "((f_rm_static = Some f_rm
       \<or> f_rm_static = None \<and> globals ''meta_schedule.remove_build_dir'' = Some f_rm) \<longrightarrow>
      RemoveBuildArtifact_Apply globals f_rm_static builder_results w
        = (fst (remove_each f_rm (defined_paths builder_results) w), Some f_rm,
           snd (remove_each f_rm (defined_paths builder_results) w)))
   \<and> ((\<forall>p\<in>set (defined_paths builder_results). p \<notin> set bad) \<longrightarrow>
      RemoveBuildArtifact_Apply (registered (record_call bad)) None builder_results []
        = (None, Some (record_call bad), defined_paths builder_results))
   \<and> length (defined_paths builder_results)
     = length (filter (\<lambda>r. artifact_path r \<noteq> None) builder_results)
   \<and> (defined_paths builder_results = before @ path # after
        \<and> (\<forall>p\<in>set before. p \<notin> set bad) \<and> path \<in> set bad \<longrightarrow>
      RemoveBuildArtifact_Apply (registered (record_call bad)) None builder_results []
        = (Some (RemovalFailed path), Some (record_call bad), before @ [path]))
   \<and> (artifact_path r = Some p \<longrightarrow> defined_paths [r] = [p])
   \<and> (artifact_path r = None \<longrightarrow>
        defined_paths [r] = []
        \<and> RemoveBuildArtifact_loop f_rm (rs1 @ r # rs2) w
          = RemoveBuildArtifact_loop f_rm (rs1 @ rs2) w)"
proof -
  have 1: "RemoveBuildArtifact_Apply globals f_rm_static builder_results w
        = (fst (remove_each f_rm (defined_paths builder_results) w), Some f_rm,
           snd (remove_each f_rm (defined_paths builder_results) w))"
    if "f_rm_static = Some f_rm
       \<or> f_rm_static = None \<and> globals ''meta_schedule.remove_build_dir'' = Some f_rm"
    using that
    by (auto simp: RemoveBuildArtifact_Apply_def RemoveBuildArtifact_loop_remove_each
        split: prod.splits)
  have reg: "RemoveBuildArtifact_Apply (registered (record_call bad)) None builder_results []
      = (fst (remove_each (record_call bad) (defined_paths builder_results) []),
         Some (record_call bad),
         snd (remove_each (record_call bad) (defined_paths builder_results) []))"
    by (simp add: RemoveBuildArtifact_Apply_def RemoveBuildArtifact_loop_remove_each
        registered_def split: prod.splits)
  have 2: "RemoveBuildArtifact_Apply (registered (record_call bad)) None builder_results []
        = (None, Some (record_call bad), defined_paths builder_results)"
    if "\<forall>p\<in>set (defined_paths builder_results). p \<notin> set bad"
    unfolding reg using remove_each_record_ok [OF that, of "[]"] by simp
  have 3: "length (defined_paths builder_results)
     = length (filter (\<lambda>r. artifact_path r \<noteq> None) builder_results)"
    by (simp add: defined_paths_def map_filter_def)
  have 4: "RemoveBuildArtifact_Apply (registered (record_call bad)) None builder_results []
        = (Some (RemovalFailed path), Some (record_call bad), before @ [path])"
    if "defined_paths builder_results = before @ path # after
        \<and> (\<forall>p\<in>set before. p \<notin> set bad) \<and> path \<in> set bad"
  proof -
    from that have d: "defined_paths builder_results = before @ path # after"
      and b: "\<forall>p\<in>set before. p \<notin> set bad" and p: "path \<in> set bad" by simp_all
    show ?thesis unfolding reg d using remove_each_record_raise [OF b p, of after "[]"] by simp
  qed
  have 5: "defined_paths [r] = [p]" if "artifact_path r = Some p"
    using that by (simp add: defined_paths_def map_filter_simps)
  have 6: "defined_paths [r] = []" if "artifact_path r = None"
    using that by (simp add: defined_paths_def map_filter_simps)
  have 7: "RemoveBuildArtifact_loop f_rm (rs1 @ r # rs2) w
          = RemoveBuildArtifact_loop f_rm (rs1 @ rs2) w" if "artifact_path r = None"
    using that by (simp add: RemoveBuildArtifact_loop_remove_each defined_paths_def map_filter_def)
  from 1 2 3 4 5 6 7 show ?thesis by blast
qed

text \<open>
  One round of three results, with and without a removal that raises; the run after it
  uses the function found by the first run although the table of global functions now
  holds another one.
\<close>

theorem RemoveBuildArtifact_calls_witness:
  "RemoveBuildArtifact_Apply (registered (record_call [])) None
     [\<lparr>artifact_path = Some ''/tmp/a.tar'', error_msg = None\<rparr>,
      \<lparr>artifact_path = None, error_msg = Some ''build failed''\<rparr>,
      \<lparr>artifact_path = Some ''/tmp/c.tar'', error_msg = None\<rparr>] []
   = (None, Some (record_call []), [''/tmp/a.tar'', ''/tmp/c.tar''])
   \<and> RemoveBuildArtifact_Apply (registered (record_call [''/tmp/a.tar''])) None
     [\<lparr>artifact_path = Some ''/tmp/a.tar'', error_msg = None\<rparr>,
      \<lparr>artifact_path = None, error_msg = Some ''build failed''\<rparr>,
      \<lparr>artifact_path = Some ''/tmp/c.tar'', error_msg = None\<rparr>] []
   = (Some (RemovalFailed ''/tmp/a.tar''), Some (record_call [''/tmp/a.tar'']), [''/tmp/a.tar''])
   \<and> RemoveBuildArtifact_Apply (registered (record_call [''/tmp/c.tar''])) (Some (record_call []))
     [\<lparr>artifact_path = None, error_msg = Some ''build failed''\<rparr>,
      \<lparr>artifact_path = Some ''/tmp/c.tar'', error_msg = None\<rparr>] []
   = (None, Some (record_call []), [''/tmp/c.tar''])"
  using RemoveBuildArtifact_calls [of None "record_call []" "registered (record_call [])"
     "[\<lparr>artifact_path = Some ''/tmp/a.tar'', error_msg = None\<rparr>,
      \<lparr>artifact_path = None, error_msg = Some ''build failed''\<rparr>,
      \<lparr>artifact_path = Some ''/tmp/c.tar'', error_msg = None\<rparr>]" "[]" "[]"
     "[]" "''/tmp/a.tar''" "[]"
     "\<lparr>artifact_path = None, error_msg = Some ''build failed''\<rparr>" "''x''" "[]" "[]"]
    RemoveBuildArtifact_calls [of None "record_call [''/tmp/a.tar'']"
     "registered (record_call [''/tmp/a.tar''])"
     "[\<lparr>artifact_path = Some ''/tmp/a.tar'', error_msg = None\<rparr>,
      \<lparr>artifact_path = None, error_msg = Some ''build failed''\<rparr>,
      \<lparr>artifact_path = Some ''/tmp/c.tar'', error_msg = None\<rparr>]" "[]" "[''/tmp/a.tar'']"
     "[]" "''/tmp/a.tar''" "[''/tmp/c.tar'']"
     "\<lparr>artifact_path = None, error_msg = Some ''build failed''\<rparr>" "''x''" "[]" "[]"]
    RemoveBuildArtifact_calls [of "Some (record_call [])" "record_call []"
     "registered (record_call [''/tmp/c.tar''])"
     "[\<lparr>artifact_path = None, error_msg = Some ''build failed''\<rparr>,
      \<lparr>artifact_path = Some ''/tmp/c.tar'', error_msg = None\<rparr>]" "[]" "[]"
     "[]" "''/tmp/c.tar''" "[]"
     "\<lparr>artifact_path = None, error_msg = Some ''build failed''\<rparr>" "''x''" "[]" "[]"]
  by (simp add: defined_paths_def map_filter_simps registered_def record_call_def)

section \<open>Properties of MutateComputeLocation\<close>

lemma ucast_scast_int32: "(ucast (scast (x :: int32) :: int64) :: int32) = x"
  by (rule bit_word_eqI) (auto simp: bit_simps)

lemma erase_location_remove1:
  "map snd (erase_location old locations) = remove1 old (map snd locations)"
  by (induction old locations rule: erase_location.induct) simp_all

lemma provider_eligible:
  "f_decision_provider E sch inst (inputs inst) (inst_attrs inst) (decision inst) acc
     = Inr (d, acc') \<Longrightarrow>
   d = decision inst \<and> acc' = acc @ eligible_at E (sch, inst)"
  by (auto simp: f_decision_provider_def eligible_at_def Let_def erase_location_remove1 [symmetric]
      split: if_splits Any.splits sum.splits)

lemma replay_candidates:
  "replay E (f_decision_provider E) insts sch acc = Inr (sch', cands) \<Longrightarrow>
   cands = acc @ concat (map (eligible_at E) (replay_points E insts sch))"
proof (induction insts arbitrary: sch acc)
  case Nil
  then show ?case by simp
next
  case (Cons inst rest)
  from Cons.prems obtain d acc' sch1 where
    p: "f_decision_provider E sch inst (inputs inst) (inst_attrs inst) (decision inst) acc
          = Inr (d, acc')" and
    a: "f_apply_to_schedule E sch inst d = Inr sch1" and
    r: "replay E (f_decision_provider E) rest sch1 acc' = Inr (sch', cands)"
    by (auto split: sum.splits)
  from provider_eligible [OF p] have d: "d = decision inst"
    and acc': "acc' = acc @ eligible_at E (sch, inst)" by simp_all
  from Cons.IH [OF r] a d acc' show ?case by simp
qed

lemma FindCandidates_eligible:
  assumes "FindCandidates E json_mod trace rand_state = Inr (candidates, rs1)"
  shows "candidates = eligible E json_mod trace rand_state \<and> rs1 = snd (ForkSeed E rand_state)"
proof -
  from assms obtain sch' where
    r: "replay E (f_decision_provider E) (strip_postproc E trace)
          (start_schedule E json_mod rand_state) [] = Inr (sch', candidates)"
    and rs: "rs1 = snd (ForkSeed E rand_state)"
    by (auto simp: FindCandidates_def ApplyToSchedule_def start_schedule_def Let_def
        split: prod.splits sum.splits)
  from replay_candidates [OF r] rs show ?thesis
    by (simp add: eligible_def trace_points_def)
qed

lemma remove1_sole:
  assumes "distinct xs" and "\<forall>y\<in>set xs. y = x"
  shows "remove1 x xs = []"
proof (cases xs)
  case Nil
  then show ?thesis by simp
next
  case outer: (Cons a rest)
  have "rest = []"
  proof (cases rest)
    case Nil
    then show ?thesis .
  next
    case (Cons b rest')
    with assms outer have "a = x" and "b = x" and "a \<noteq> b" by auto
    then show ?thesis by simp
  qed
  with assms outer show ?thesis by simp
qed

lemma no_other_location_remove1:
  assumes "no_other_location E (sch, inst)"
    and "kind inst = ''SampleComputeLocation''"
    and "decision inst = AInt v"
    and "CollectComputeLocation E sch (inputs inst ! 0) = Inr locations"
  shows "remove1 (ucast v) (map snd locations) = []"
proof -
  from assms have dist: "distinct (map snd locations)" and
    a: "\<forall>loc\<in>set (map snd locations). (scast loc :: int64) = v"
    by (simp_all add: no_other_location_def list_all_iff)
  have "\<forall>loc\<in>set (map snd locations). loc = ucast v"
  proof
    fix loc assume "loc \<in> set (map snd locations)"
    with a have "(scast loc :: int64) = v" by blast
    then show "loc = ucast v" using ucast_scast_int32 [of loc] by simp
  qed
  from remove1_sole [OF dist this] show ?thesis .
qed

lemma provider_no_other_location:
  assumes "no_other_location E (sch, inst)"
  shows "f_decision_provider E sch inst (inputs inst) (inst_attrs inst) (decision inst) acc
     = Inr (decision inst, acc)"
proof (cases "kind inst = ''SampleComputeLocation''")
  case False
  then show ?thesis by (simp add: f_decision_provider_def)
next
  case True
  with assms obtain v locations where
    l: "length (inputs inst) = 1" and d: "decision inst = AInt v" and
    c: "CollectComputeLocation E sch (inputs inst ! 0) = Inr locations"
    by (auto simp: no_other_location_def split: Any.splits sum.splits)
  from no_other_location_remove1 [OF assms True d c]
  have "map snd (erase_location (ucast v) locations) = []"
    by (simp add: erase_location_remove1)
  then have "erase_location (ucast v) locations = []" by simp
  with True l d c show ?thesis by (simp add: f_decision_provider_def)
qed

lemma replay_no_candidates:
  "replays E insts sch \<Longrightarrow> \<forall>p\<in>set (replay_points E insts sch). no_other_location E p \<Longrightarrow>
   \<exists>sch'. replay E (f_decision_provider E) insts sch acc = Inr (sch', acc)"
proof (induction insts arbitrary: sch)
  case Nil
  then show ?case by simp
next
  case (Cons inst rest)
  from Cons.prems(1) obtain sch1 where
    a: "f_apply_to_schedule E sch inst (decision inst) = Inr sch1" and r: "replays E rest sch1"
    by (auto split: sum.splits)
  from Cons.prems(2) a have here: "no_other_location E (sch, inst)"
    and later: "\<forall>p\<in>set (replay_points E rest sch1). no_other_location E p"
    by simp_all
  from Cons.IH [OF r later] provider_no_other_location [OF here, of acc] a
  show ?case by simp
qed

lemma replay_points_insts: "(s, i) \<in> set (replay_points E insts sch) \<Longrightarrow> i \<in> set insts"
  by (induction insts arbitrary: sch) (auto split: sum.splits)

lemma strip_postproc_subset: "set (strip_postproc E trace) \<subseteq> set trace"
  using set_dropWhileD [of _ "IsPostproc E" "rev trace"] by (auto simp: strip_postproc_def)

lemma trace_points_insts:
  "(s, i) \<in> set (trace_points E json_mod trace rand_state) \<Longrightarrow> i \<in> set trace"
  using replay_points_insts [of s i E] strip_postproc_subset [of E trace]
  by (auto simp: trace_points_def)

lemma Apply_no_candidates:
  assumes "replays E (strip_postproc E trace) (start_schedule E json_mod rand_state)"
    and "\<forall>p\<in>set (trace_points E json_mod trace rand_state). no_other_location E p"
  shows "MutateComputeLocation_Apply E json_mod trace rand_state
     = Inr (None, snd (ForkSeed E rand_state))"
proof -
  from replay_no_candidates [OF assms(1) assms(2) [unfolded trace_points_def], of "[]"]
  obtain sch' where "replay E (f_decision_provider E) (strip_postproc E trace)
      (start_schedule E json_mod rand_state) [] = Inr (sch', [])" by blast
  then have "FindCandidates E json_mod trace rand_state = Inr ([], snd (ForkSeed E rand_state))"
    by (simp add: FindCandidates_def ApplyToSchedule_def start_schedule_def Let_def
        split_beta)
  then show ?thesis by (simp add: MutateComputeLocation_Apply_def)
qed

lemma eligible_at_cases:
  assumes "c \<in> set (eligible_at E (sch, inst))"
  shows "\<exists>v locations.
    kind inst = ''SampleComputeLocation'' \<and> decision inst = AInt v
    \<and> CollectComputeLocation E sch (inputs inst ! 0) = Inr locations
    \<and> c = Candidate inst (remove1 (ucast v) (map snd locations))"
proof (cases "kind inst = ''SampleComputeLocation''")
  case False
  with assms show ?thesis by (simp add: eligible_at_def)
next
  case k: True
  show ?thesis
  proof (cases "decision inst")
    case (AInt v)
    show ?thesis
    proof (cases "CollectComputeLocation E sch (inputs inst ! 0)")
      case (Inl e)
      with assms k AInt show ?thesis by (simp add: eligible_at_def)
    next
      case (Inr locations)
      with assms k AInt have "c = Candidate inst (remove1 (ucast v) (map snd locations))"
        by (simp add: eligible_at_def Let_def split: if_splits)
      with k AInt Inr show ?thesis by simp
    qed
  qed (use assms k in \<open>simp_all add: eligible_at_def\<close>)
qed

lemma new_decision_differs:
  assumes "distinct locs" and "loc \<in> set (remove1 (ucast v) locs)"
  shows "loc \<noteq> (ucast (v :: int64) :: int32) \<and> AInt (scast loc) \<noteq> AInt v"
proof -
  from assms have ne: "loc \<noteq> ucast v" by auto
  have "(scast loc :: int64) \<noteq> v"
  proof
    assume "(scast loc :: int64) = v"
    then have "(ucast v :: int32) = loc" using ucast_scast_int32 [of loc] by simp
    with ne show False by simp
  qed
  with ne show ?thesis by simp
qed

lemma Apply_Some_inv:
  assumes "MutateComputeLocation_Apply E json_mod trace rand_state
             = Inr (Some trace', rand_state')"
  obtains candidates rs1 k rs2 j where
    "FindCandidates E json_mod trace rand_state = Inr (candidates, rs1)"
    "SampleInt E rs1 0 (of_nat (length candidates)) = (k, rs2)"
    "0 \<le> sint k" "nat (sint k) < length candidates"
    "SampleInt E rs2 0 (of_nat (length (cand_locs (candidates ! nat (sint k)))))
       = (j, rand_state')"
    "0 \<le> sint j" "nat (sint j) < length (cand_locs (candidates ! nat (sint k)))"
    "trace' = WithDecision E trace (cand_inst (candidates ! nat (sint k)))
       (AInt (scast (cand_locs (candidates ! nat (sint k)) ! nat (sint j)))) True"
proof (cases "FindCandidates E json_mod trace rand_state")
  case (Inl e)
  with assms show ?thesis by (simp add: MutateComputeLocation_Apply_def)
next
  case (Inr r)
  obtain candidates rs1 where r: "r = (candidates, rs1)" by (cases r)
  with Inr have fc: "FindCandidates E json_mod trace rand_state = Inr (candidates, rs1)"
    by simp
  show ?thesis
  proof (cases "candidates = []")
    case True
    with assms fc show ?thesis by (simp add: MutateComputeLocation_Apply_def)
  next
    case ne: False
    obtain k rs2 where k: "SampleInt E rs1 0 (of_nat (length candidates)) = (k, rs2)"
      by (cases "SampleInt E rs1 0 (of_nat (length candidates))")
    show ?thesis
    proof (cases "0 \<le> sint k \<and> nat (sint k) < length candidates")
      case False
      with assms fc ne k show ?thesis by (simp add: MutateComputeLocation_Apply_def)
    next
      case kr: True
      define c where "c = candidates ! nat (sint k)"
      obtain j rs3 where j: "SampleInt E rs2 0 (of_nat (length (cand_locs c))) = (j, rs3)"
        by (cases "SampleInt E rs2 0 (of_nat (length (cand_locs c)))")
      show ?thesis
      proof (cases "0 \<le> sint j \<and> nat (sint j) < length (cand_locs c)")
        case False
        with assms fc ne k kr j show ?thesis
          by (simp add: MutateComputeLocation_Apply_def c_def [symmetric] Let_def)
      next
        case jr: True
        with assms fc ne k kr j have
          "trace' = WithDecision E trace (cand_inst c) (AInt (scast (cand_locs c ! nat (sint j)))) True"
          and "rand_state' = rs3"
          by (simp_all add: MutateComputeLocation_Apply_def c_def [symmetric] Let_def)
        with fc k kr j jr that show ?thesis unfolding c_def by blast
      qed
    qed
  qed
qed

lemma Apply_Some_selects:
  assumes "MutateComputeLocation_Apply E json_mod trace rand_state
             = Inr (Some trace', rand_state')"
  shows "\<exists>candidates k rs2 j sch inst v locations alternatives loc.
       candidates = eligible E json_mod trace rand_state
     \<and> SampleInt E (snd (ForkSeed E rand_state)) 0 (of_nat (length candidates)) = (k, rs2)
     \<and> 0 \<le> sint k \<and> nat (sint k) < length candidates
     \<and> candidates ! nat (sint k) = Candidate inst alternatives
     \<and> SampleInt E rs2 0 (of_nat (length alternatives)) = (j, rand_state')
     \<and> 0 \<le> sint j \<and> nat (sint j) < length alternatives
     \<and> loc = alternatives ! nat (sint j)
     \<and> (sch, inst) \<in> set (trace_points E json_mod trace rand_state)
     \<and> inst \<in> set trace
     \<and> kind inst = ''SampleComputeLocation''
     \<and> decision inst = AInt v
     \<and> CollectComputeLocation E sch (inputs inst ! 0) = Inr locations
     \<and> alternatives = remove1 (ucast v) (map snd locations)
     \<and> loc \<in> set (map snd locations)
     \<and> trace' = WithDecision E trace inst (AInt (scast loc)) True
     \<and> (distinct (map snd locations) \<longrightarrow>
           loc \<noteq> ucast v \<and> AInt (scast loc) \<noteq> decision inst)"
proof -
  from assms obtain candidates rs1 k rs2 j where
    fc: "FindCandidates E json_mod trace rand_state = Inr (candidates, rs1)" and
    k: "SampleInt E rs1 0 (of_nat (length candidates)) = (k, rs2)" and
    kr: "0 \<le> sint k" "nat (sint k) < length candidates" and
    j: "SampleInt E rs2 0 (of_nat (length (cand_locs (candidates ! nat (sint k)))))
       = (j, rand_state')" and
    jr: "0 \<le> sint j" "nat (sint j) < length (cand_locs (candidates ! nat (sint k)))" and
    res: "trace' = WithDecision E trace (cand_inst (candidates ! nat (sint k)))
       (AInt (scast (cand_locs (candidates ! nat (sint k)) ! nat (sint j)))) True"
    by (rule Apply_Some_inv)
  from FindCandidates_eligible [OF fc] have
    cs: "candidates = eligible E json_mod trace rand_state" and
    rs1: "rs1 = snd (ForkSeed E rand_state)" by simp_all
  define c where "c = candidates ! nat (sint k)"
  from kr(2) have "c \<in> set candidates" by (simp add: c_def)
  with cs obtain p where
    p: "p \<in> set (trace_points E json_mod trace rand_state)" and cp: "c \<in> set (eligible_at E p)"
    by (auto simp: eligible_def)
  obtain sch inst where si: "p = (sch, inst)" by (cases p)
  from cp si eligible_at_cases [of c E sch inst] obtain v locations where
    e1: "kind inst = ''SampleComputeLocation''" and e2: "decision inst = AInt v" and
    e3: "CollectComputeLocation E sch (inputs inst ! 0) = Inr locations" and
    e4: "c = Candidate inst (remove1 (ucast v) (map snd locations))"
    by blast
  define alternatives where "alternatives = remove1 (ucast v) (map snd locations)"
  define loc where "loc = alternatives ! nat (sint j)"
  from e4 have ci: "cand_inst c = inst" and cl: "cand_locs c = alternatives"
    by (simp_all add: alternatives_def)
  from jr cl have la: "loc \<in> set alternatives" by (simp add: loc_def c_def)
  then have mem: "loc \<in> set (remove1 (ucast v) (map snd locations))"
    by (simp add: alternatives_def)
  have mem': "loc \<in> set (map snd locations)"
    using mem set_remove1_subset [of "ucast v" "map snd locations"] by blast
  have diff: "distinct (map snd locations) \<longrightarrow>
           loc \<noteq> ucast v \<and> AInt (scast loc) \<noteq> decision inst"
    using new_decision_differs [OF _ mem] e2 by simp
  from p si trace_points_insts have it: "inst \<in> set trace" by fastforce
  have c1: "candidates ! nat (sint k) = Candidate inst alternatives"
    using e4 by (simp add: c_def alternatives_def)
  have j': "SampleInt E rs2 0 (of_nat (length alternatives)) = (j, rand_state')"
    using j cl by (simp add: c_def)
  have jr': "nat (sint j) < length alternatives" using jr(2) cl by (simp add: c_def)
  have res': "trace' = WithDecision E trace inst (AInt (scast loc)) True"
    using res ci cl by (simp add: c_def loc_def)
  have k': "SampleInt E (snd (ForkSeed E rand_state)) 0 (of_nat (length candidates)) = (k, rs2)"
    using k rs1 by simp
  have pin: "(sch, inst) \<in> set (trace_points E json_mod trace rand_state)"
    using p si by simp
  from cs k' kr c1 j' jr(1) jr' loc_def pin it e1 e2 e3 alternatives_def mem' res' diff
  show ?thesis by blast
qed


lemma demo_eligible:
  "eligible demo_engine ''workload'' demo_trace 5 = [Candidate (demo_sample 3 0) [- 1, 1]]"
  by code_simp

lemma Apply_propagates:
  assumes "ApplyToSchedule E trace (start_schedule E json_mod rand_state) True
      (f_decision_provider E) [] = Inl e"
  shows "MutateComputeLocation_Apply E json_mod trace rand_state = Inl e"
proof -
  from assms have "FindCandidates E json_mod trace rand_state = Inl e"
    by (simp add: FindCandidates_def start_schedule_def split_beta)
  then show ?thesis by (simp add: MutateComputeLocation_Apply_def)
qed

lemma Apply_never_Some:
  assumes "\<forall>p\<in>set (trace_points E json_mod trace rand_state). no_other_location E p"
  shows "MutateComputeLocation_Apply E json_mod trace rand_state \<noteq> Inr (Some trace', rand_state')"
proof
  assume "MutateComputeLocation_Apply E json_mod trace rand_state = Inr (Some trace', rand_state')"
  from Apply_Some_selects [OF this] show False
  proof (elim exE conjE)
    fix j :: int32 and sch inst v locations and alternatives :: "int32 list"
    assume jr: "nat (sint j) < length alternatives" and
      p: "(sch, inst) \<in> set (trace_points E json_mod trace rand_state)" and
      k: "kind inst = ''SampleComputeLocation''" and
      d: "decision inst = AInt v" and
      c: "CollectComputeLocation E sch (inputs inst ! 0) = Inr locations" and
      alt: "alternatives = remove1 (ucast v) (map snd locations)"
    from assms p have "no_other_location E (sch, inst)" by blast
    from no_other_location_remove1 [OF this k d c] alt jr show False by simp
  qed
qed

text \<open>
  C6, amended. For every trace that replays on the mutator's workload and in which every
  \<^verbatim>\<open>SampleComputeLocation\<close> instruction reached by the replay has one input, an integer
  decision, and legal compute-at locations that are collected without error, are pairwise
  distinct, and are none other than that decision, \<^verbatim>\<open>MutateComputeLocation::Apply\<close>
  returns "no mutation" (and the random state after the fork); so it does for every trace
  that replays and has no \<^verbatim>\<open>SampleComputeLocation\<close> instruction at all. Without the
  assumption that the trace replays, \<^verbatim>\<open>Apply\<close> still never returns a trace for such a
  trace, and an error of the replay is the error of \<^verbatim>\<open>Apply\<close>.
\<close>

theorem Apply_no_mutation:
  "(replays E (strip_postproc E trace) (start_schedule E json_mod rand_state)
      \<and> (\<forall>p\<in>set (trace_points E json_mod trace rand_state). no_other_location E p) \<longrightarrow>
    MutateComputeLocation_Apply E json_mod trace rand_state
      = Inr (None, snd (ForkSeed E rand_state)))
   \<and> (replays E (strip_postproc E trace) (start_schedule E json_mod rand_state)
      \<and> (\<forall>inst\<in>set trace. kind inst \<noteq> ''SampleComputeLocation'') \<longrightarrow>
    MutateComputeLocation_Apply E json_mod trace rand_state
      = Inr (None, snd (ForkSeed E rand_state)))
   \<and> ((\<forall>p\<in>set (trace_points E json_mod trace rand_state). no_other_location E p) \<longrightarrow>
    MutateComputeLocation_Apply E json_mod trace rand_state \<noteq> Inr (Some trace', rand_state'))
   \<and> (ApplyToSchedule E trace (start_schedule E json_mod rand_state) True
        (f_decision_provider E) [] = Inl e \<longrightarrow>
    MutateComputeLocation_Apply E json_mod trace rand_state = Inl e)"
proof -
  have 1: "MutateComputeLocation_Apply E json_mod trace rand_state
      = Inr (None, snd (ForkSeed E rand_state))"
    if "replays E (strip_postproc E trace) (start_schedule E json_mod rand_state)
      \<and> (\<forall>p\<in>set (trace_points E json_mod trace rand_state). no_other_location E p)"
    using that Apply_no_candidates by blast
  have 2: "MutateComputeLocation_Apply E json_mod trace rand_state
      = Inr (None, snd (ForkSeed E rand_state))"
    if a: "replays E (strip_postproc E trace) (start_schedule E json_mod rand_state)
      \<and> (\<forall>inst\<in>set trace. kind inst \<noteq> ''SampleComputeLocation'')"
  proof -
    have "\<forall>p\<in>set (trace_points E json_mod trace rand_state). no_other_location E p"
    proof
      fix p assume p: "p \<in> set (trace_points E json_mod trace rand_state)"
      obtain s i where si: "p = (s, i)" by (cases p)
      with p trace_points_insts have "i \<in> set trace" by fastforce
      with a si show "no_other_location E p" by (simp add: no_other_location_def)
    qed
    with a show ?thesis using Apply_no_candidates by blast
  qed
  from 1 2 Apply_never_Some [of E json_mod trace rand_state] Apply_propagates [of E trace json_mod rand_state]
  show ?thesis by blast
qed

lemmas demo_defs = demo_engine_def demo_inst_def demo_sample_def strip_postproc_def
  start_schedule_def trace_points_def no_other_location_def

theorem Apply_no_mutation_witness:
  "MutateComputeLocation_Apply demo_engine ''workload''
     [demo_inst ''GetBlock'', demo_sample 1 (- 1), demo_inst ''EnterPostproc''] 5
     = Inr (None, 241355)
   \<and> MutateComputeLocation_Apply demo_engine ''workload''
     [demo_inst ''GetBlock'', demo_inst ''Split'', demo_inst ''EnterPostproc''] 5
     = Inr (None, 241355)"
  using Apply_no_mutation [of demo_engine
      "[demo_inst ''GetBlock'', demo_sample 1 (- 1), demo_inst ''EnterPostproc'']" "''workload''" 5]
    Apply_no_mutation [of demo_engine
      "[demo_inst ''GetBlock'', demo_inst ''Split'', demo_inst ''EnterPostproc'']" "''workload''" 5]
  by (simp add: demo_defs)

lemma demo_dup_Apply:
  "MutateComputeLocation_Apply demo_engine_dup ''workload'' [demo_sample 1 5] 5
     = Inr (Some [demo_sample 1 5], 562378737032555)"
  by code_simp

lemma demo_dup_locations:
  "trace_points demo_engine_dup ''workload'' [demo_sample 1 5] 5 = [(0, demo_sample 1 5)]
   \<and> CollectComputeLocation demo_engine_dup 0 (inputs (demo_sample 1 5) ! 0)
       = Inr [(0, 5), (1, 5)]
   \<and> decision (demo_sample 1 5) = AInt 5
   \<and> WithDecision demo_engine_dup [demo_sample 1 5] (demo_sample 1 5) (AInt 5) True
       = [demo_sample 1 5]"
  by code_simp

text \<open>
  C6, as the claim states it, fails, in two ways. The replay inside \<^verbatim>\<open>FindCandidates\<close>
  can fail (a \<^verbatim>\<open>ScheduleError\<close> of the replay engine, spec 4.1), and neither
  \<^verbatim>\<open>FindCandidates\<close> nor \<^verbatim>\<open>Apply\<close> catches it: a trace without any
  \<^verbatim>\<open>SampleComputeLocation\<close> instruction, whose only instruction the engine rejects, makes
  \<^verbatim>\<open>Apply\<close> end in that error instead of returning "no mutation". And step 3 of the
  decision provider erases the first occurrence of the old decision only: when the one
  legal location, which is the current decision, is collected twice, the instruction
  stays a candidate and \<^verbatim>\<open>Apply\<close> returns a trace.
\<close>

theorem Apply_replay_error_counterexample:
  "kind (demo_inst ''Illegal'') \<noteq> ''SampleComputeLocation''
   \<and> MutateComputeLocation_Apply demo_engine ''workload'' [demo_inst ''Illegal''] 5
       = Inl ScheduleError
   \<and> trace_points demo_engine_dup ''workload'' [demo_sample 1 5] 5 = [(0, demo_sample 1 5)]
   \<and> CollectComputeLocation demo_engine_dup 0 (inputs (demo_sample 1 5) ! 0)
       = Inr [(0, 5), (1, 5)]
   \<and> decision (demo_sample 1 5) = AInt 5
   \<and> MutateComputeLocation_Apply demo_engine_dup ''workload'' [demo_sample 1 5] 5
       = Inr (Some [demo_sample 1 5], 562378737032555)"
proof -
  have "kind (demo_inst ''Illegal'') \<noteq> ''SampleComputeLocation''
   \<and> MutateComputeLocation_Apply demo_engine ''workload'' [demo_inst ''Illegal''] 5
       = Inl ScheduleError"
    by code_simp
  with demo_dup_Apply demo_dup_locations show ?thesis by simp
qed











lemma demo_FindCandidates:
  "FindCandidates demo_engine ''workload'' demo_trace 5
     = Inr ([Candidate (demo_sample 3 0) [- 1, 1]], 241355)"
  by code_simp


end
